theory Spec2Isabelle
  imports Main "HOL-Library.Word" "HOL-Library.Sublist" "HOL-Library.Product_Lexorder"
    "HOL-Library.Multiset"
begin

chapter \<open>BlogHub: the client of a content-publishing platform\<close>

text \<open>
  The repository holds the React client of the platform (the pages, the authentication
  context and the HTTP wrappers of \<^verbatim>\<open>services/api.js\<close>). The first part of this theory embeds
  that code. The server that answers the requests is not part of the sources; the second
  part models its operations from the specification, each such definition marked as
  such.
\<close>

section \<open>JavaScript strings and values\<close>

text \<open>
  A JavaScript string is a sequence of UTF-16 code units; \<^verbatim>\<open>length\<close> counts code units.
  String literals of the source are ASCII and are written with \<open>js\<close>.
\<close>

type_synonym code_unit = "16 word"
type_synonym jsstring = "code_unit list"

definition js :: "string \<Rightarrow> jsstring" where
  "js s = map (\<lambda>c. of_nat (of_char c)) s"

text \<open>
  \<^verbatim>\<open>String.prototype.trim\<close> strips the code points of WhiteSpace and LineTerminator
  (ECMA-262, 22.1.3.32): TAB, LF, VT, FF, CR, SP, NBSP, the Unicode space separators, LS,
  PS and the BOM. All of them are single code units.
\<close>

definition isWhiteSpace :: "code_unit \<Rightarrow> bool" where
  "isWhiteSpace c \<longleftrightarrow>
     c \<in> set [0x0009, 0x000A, 0x000B, 0x000C, 0x000D, 0x0020, 0x00A0, 0x1680,
               0x2000, 0x2001, 0x2002, 0x2003, 0x2004, 0x2005, 0x2006, 0x2007,
               0x2008, 0x2009, 0x200A, 0x2028, 0x2029, 0x202F, 0x205F, 0x3000, 0xFEFF]"

definition trim :: "jsstring \<Rightarrow> jsstring" where
  "trim s = rev (dropWhile isWhiteSpace (rev (dropWhile isWhiteSpace s)))"

text \<open>
  \<^verbatim>\<open>s.substring(start, end)\<close>: both indices are clamped to \<open>[0, length]\<close> and swapped when
  \<open>start > end\<close>.
\<close>

definition substring :: "jsstring \<Rightarrow> int \<Rightarrow> int \<Rightarrow> jsstring" where
  "substring s start end =
     (let len = int (length s);
          a = min (max start 0) len;
          b = min (max end 0) len;
          from = min a b;
          to = max a b
      in drop (nat from) (take (nat to) s))"

text \<open>
  \<^verbatim>\<open>s.split(sep)\<close> for a separator of one code unit: the pieces between the separators,
  \<^verbatim>\<open>"".split(",")\<close> being \<^verbatim>\<open>[""]\<close>.
\<close>

fun split_on :: "code_unit \<Rightarrow> jsstring \<Rightarrow> jsstring list" where
  "split_on sep [] = [[]]"
| "split_on sep (c # cs) =
     (if c = sep then [] # split_on sep cs
      else (case split_on sep cs of
              [] \<Rightarrow> [[c]]
            | piece # pieces \<Rightarrow> (c # piece) # pieces))"

text \<open>
  The values a JSON response body or a piece of client state can hold. Numbers are the
  integers (the counters and limits of this program); an object is the list of its
  properties.
\<close>

datatype jsvalue =
    JUndefined
  | JNull
  | JBool bool
  | JNum int
  | JStr jsstring
  | JArr "jsvalue list"
  | JObj "(jsstring \<times> jsvalue) list"

text \<open>ToBoolean: what \<^verbatim>\<open>!v\<close>, \<^verbatim>\<open>v ? a : b\<close> and \<^verbatim>\<open>v || w\<close> test.\<close>

fun truthy :: "jsvalue \<Rightarrow> bool" where
  "truthy JUndefined = False"
| "truthy JNull = False"
| "truthy (JBool b) = b"
| "truthy (JNum n) = (n \<noteq> 0)"
| "truthy (JStr s) = (s \<noteq> [])"
| "truthy (JArr vs) = True"
| "truthy (JObj kvs) = True"

text \<open>
  \<^verbatim>\<open>v?.key\<close> for a data property: \<^verbatim>\<open>undefined\<close> on \<^verbatim>\<open>null\<close> and \<^verbatim>\<open>undefined\<close>, the property
  of an object when it has one, and \<^verbatim>\<open>undefined\<close> otherwise (the keys read by this program,
  \<^verbatim>\<open>role\<close> and \<^verbatim>\<open>detail\<close>, are no properties of a string, number, boolean or array).
\<close>

fun opt_member :: "jsvalue \<Rightarrow> jsstring \<Rightarrow> jsvalue" where
  "opt_member (JObj kvs) key = (case map_of kvs key of Some v \<Rightarrow> v | None \<Rightarrow> JUndefined)"
| "opt_member v key = JUndefined"

text \<open>\<^verbatim>\<open>a || b\<close>.\<close>

definition or_else :: "jsvalue \<Rightarrow> jsvalue \<Rightarrow> jsvalue" where
  "or_else a b = (if truthy a then a else b)"

text \<open>
  The numbers a page computes with are the counters of an article. A JavaScript number is
  a double; a counter is one of the doubles that are integers, or \<^verbatim>\<open>NaN\<close>, or an infinity.
  \<open>Num n\<close> is the double whose value is the integer \<open>n\<close> (zero stands for both zeros,
  which adding and subtracting 1 do not tell apart).
\<close>

datatype jsnumber = Num int | NotANumber | PlusInfinity | MinusInfinity

text \<open>The number of binary digits of a positive integer.\<close>

function bit_length :: "int \<Rightarrow> nat" where
  "bit_length n = (if n \<le> 0 then 0 else Suc (bit_length (n div 2)))"
  by pat_completeness auto
termination
  by (relation "measure nat") auto

declare bit_length.simps [simp del]

text \<open>
  The double nearest to an integer (IEEE 754 round to nearest, ties to even): integers
  up to \<open>2 ^ 53\<close> in magnitude are doubles themselves; beyond, the 53 leading binary
  digits are kept and the rest is rounded; what rounds to \<open>2 ^ 1024\<close> or more is an
  infinity.
\<close>

definition round_double :: "int \<Rightarrow> jsnumber" where
  "round_double n =
     (if \<bar>n\<bar> \<le> 2 ^ 53 then Num n
      else
        (let shift = bit_length \<bar>n\<bar> - 53;
             q = \<bar>n\<bar> div 2 ^ shift;
             r = \<bar>n\<bar> mod 2 ^ shift;
             half = 2 ^ (shift - 1);
             m = (if half < r \<or> (r = half \<and> odd q) then q + 1 else q);
             v = m * 2 ^ shift
         in if 2 ^ 1024 \<le> v then (if 0 < n then PlusInfinity else MinusInfinity)
            else Num (if 0 < n then v else - v)))"

text \<open>\<^verbatim>\<open>x + y\<close> and \<^verbatim>\<open>x - y\<close> on numbers.\<close>

fun js_add :: "jsnumber \<Rightarrow> jsnumber \<Rightarrow> jsnumber" where
  "js_add (Num a) (Num b) = round_double (a + b)"
| "js_add NotANumber y = NotANumber"
| "js_add x NotANumber = NotANumber"
| "js_add PlusInfinity MinusInfinity = NotANumber"
| "js_add MinusInfinity PlusInfinity = NotANumber"
| "js_add PlusInfinity y = PlusInfinity"
| "js_add MinusInfinity y = MinusInfinity"
| "js_add x PlusInfinity = PlusInfinity"
| "js_add x MinusInfinity = MinusInfinity"

fun js_negate :: "jsnumber \<Rightarrow> jsnumber" where
  "js_negate (Num a) = Num (- a)"
| "js_negate NotANumber = NotANumber"
| "js_negate PlusInfinity = MinusInfinity"
| "js_negate MinusInfinity = PlusInfinity"

definition js_subtract :: "jsnumber \<Rightarrow> jsnumber \<Rightarrow> jsnumber" where
  "js_subtract x y = js_add x (js_negate y)"

text \<open>
  ToNumber of a property that holds a number or is missing: a missing property reads as
  \<^verbatim>\<open>undefined\<close>, which is \<^verbatim>\<open>NaN\<close> as a number.
\<close>

definition to_number :: "jsnumber option \<Rightarrow> jsnumber" where
  "to_number v = (case v of None \<Rightarrow> NotANumber | Some x \<Rightarrow> x)"

section \<open>The article card (\<^verbatim>\<open>components/ArticleCard.js\<close>)\<close>

definition truncateContent :: "jsstring \<Rightarrow> int \<Rightarrow> jsstring" where
  "truncateContent content maxLength =
     (if int (length content) \<le> maxLength then content
      else trim (substring content 0 maxLength) @ js ''...'')"

section \<open>The authentication context (\<^verbatim>\<open>contexts/AuthContext.js\<close>)\<close>

text \<open>
  The context holds \<open>user\<close>: \<^verbatim>\<open>null\<close> until a sign-in or the answer of \<^verbatim>\<open>/auth/me\<close> stores the
  user object the server sent. The three role tests read its \<^verbatim>\<open>role\<close> property.
\<close>

definition isAdmin :: "jsvalue \<Rightarrow> bool" where
  "isAdmin user \<longleftrightarrow> opt_member user (js ''role'') = JStr (js ''admin'')"

definition isWriter :: "jsvalue \<Rightarrow> bool" where
  "isWriter user \<longleftrightarrow>
     opt_member user (js ''role'') = JStr (js ''writer'') \<or>
     opt_member user (js ''role'') = JStr (js ''admin'')"

definition isReader :: "jsvalue \<Rightarrow> bool" where
  "isReader user \<longleftrightarrow> opt_member user (js ''role'') = JStr (js ''reader'')"

section \<open>The HTTP wrappers (\<^verbatim>\<open>services/api.js\<close>)\<close>

datatype http_method = GET | POST | PUT | DELETE

record http_request =
  req_method :: http_method
  req_url :: jsstring
  req_params :: "(jsstring \<times> jsvalue) list"
  req_body :: jsvalue
  req_headers :: "(jsstring \<times> jsstring) list"

text \<open>
  An axios call either resolves with a response, of which the wrappers read \<^verbatim>\<open>data\<close>, or
  rejects with an error whose \<^verbatim>\<open>response\<close> is absent (no answer arrived) or carries the
  body of the answer. An \<^verbatim>\<open>async\<close> function fulfils with the value it returns, or rejects
  with what it throws.
\<close>

datatype axios_outcome = Response jsvalue | AxiosError "jsvalue option"

datatype 'a promise = Fulfils 'a | Rejects

type_synonym transport = "http_request \<Rightarrow> axios_outcome"

text \<open>\<^verbatim>\<open>getAuthHeader\<close>, from the token of the local storage (\<^verbatim>\<open>null\<close> when none is stored).\<close>

definition getAuthHeader :: "jsstring option \<Rightarrow> (jsstring \<times> jsstring) list" where
  "getAuthHeader token =
     (case token of
        None \<Rightarrow> []
      | Some t \<Rightarrow> if t = [] then [] else [(js ''Authorization'', js ''Bearer '' @ t)])"

text \<open>\<^verbatim>\<open>error.response?.data?.detail\<close> in the \<^verbatim>\<open>catch\<close> blocks.\<close>

definition error_detail :: "jsvalue option \<Rightarrow> jsvalue" where
  "error_detail response =
     (case response of None \<Rightarrow> JUndefined | Some d \<Rightarrow> opt_member d (js ''detail''))"

text \<open>The three sign-in wrappers: the request each posts, and what each returns.\<close>

definition register_request :: "jsvalue \<Rightarrow> jsvalue \<Rightarrow> jsvalue \<Rightarrow> http_request" where
  "register_request email password name =
     \<lparr>req_method = POST, req_url = js ''/auth/register'', req_params = [],
      req_body = JObj [(js ''email'', email), (js ''password'', password), (js ''name'', name)],
      req_headers = []\<rparr>"

definition register :: "transport \<Rightarrow> jsvalue \<Rightarrow> jsvalue \<Rightarrow> jsvalue \<Rightarrow> jsvalue promise" where
  "register http email password name =
     (case http (register_request email password name) of
        Response d \<Rightarrow> Fulfils d
      | AxiosError response \<Rightarrow>
          Fulfils (JObj [(js ''success'', JBool False),
                         (js ''error'',
                          or_else (error_detail response) (JStr (js ''Registration failed'')))]))"

definition login_request :: "jsvalue \<Rightarrow> jsvalue \<Rightarrow> http_request" where
  "login_request email password =
     \<lparr>req_method = POST, req_url = js ''/auth/login'', req_params = [],
      req_body = JObj [(js ''email'', email), (js ''password'', password)],
      req_headers = []\<rparr>"

definition login :: "transport \<Rightarrow> jsvalue \<Rightarrow> jsvalue \<Rightarrow> jsvalue promise" where
  "login http email password =
     (case http (login_request email password) of
        Response d \<Rightarrow> Fulfils d
      | AxiosError response \<Rightarrow>
          Fulfils (JObj [(js ''success'', JBool False),
                         (js ''error'',
                          or_else (error_detail response) (JStr (js ''Login failed'')))]))"

definition googleAuth_request :: "jsvalue \<Rightarrow> http_request" where
  "googleAuth_request token =
     \<lparr>req_method = POST, req_url = js ''/auth/google'', req_params = [],
      req_body = JObj [(js ''token'', token)], req_headers = []\<rparr>"

definition googleAuth :: "transport \<Rightarrow> jsvalue \<Rightarrow> jsvalue promise" where
  "googleAuth http token =
     (case http (googleAuth_request token) of
        Response d \<Rightarrow> Fulfils d
      | AxiosError response \<Rightarrow>
          Fulfils (JObj [(js ''success'', JBool False),
                         (js ''error'',
                          or_else (error_detail response) (JStr (js ''Google auth failed'')))]))"

text \<open>A transport that gives every request the same outcome.\<close>

definition answers :: "axios_outcome \<Rightarrow> transport" where
  "answers outcome request = outcome"

text \<open>
  The other wrappers have no \<^verbatim>\<open>catch\<close>: they return \<^verbatim>\<open>response.data\<close> and reject when the
  call does. \<open>getCurrentUser\<close> is one of them.
\<close>

fun returns_data :: "axios_outcome \<Rightarrow> jsvalue promise" where
  "returns_data (Response d) = Fulfils d"
| "returns_data (AxiosError response) = Rejects"

definition getCurrentUser :: "transport \<Rightarrow> jsstring option \<Rightarrow> jsvalue promise" where
  "getCurrentUser http token =
     returns_data (http \<lparr>req_method = GET, req_url = js ''/auth/me'', req_params = [],
                          req_body = JUndefined, req_headers = getAuthHeader token\<rparr>)"

text \<open>The payload the article editor sends.\<close>

record article_data =
  ad_title :: jsstring
  ad_content :: jsstring
  ad_category :: "jsstring option"
  ad_tags :: "jsstring list"

definition article_body :: "article_data \<Rightarrow> jsvalue" where
  "article_body d =
     JObj [(js ''title'', JStr (ad_title d)),
           (js ''content'', JStr (ad_content d)),
           (js ''category'', (case ad_category d of None \<Rightarrow> JNull | Some c \<Rightarrow> JStr c)),
           (js ''tags'', JArr (map JStr (ad_tags d)))]"

text \<open>
  The article and comment wrappers the pages call, as the calls they are, and the axios
  request each of them makes. A limit that is not passed defaults to 10.
\<close>

datatype api_call =
    GetArticles "(jsstring \<times> jsvalue) list"
  | GetArticle jsstring
  | CreateArticle article_data
  | UpdateArticle jsstring article_data
  | PublishArticle jsstring
  | LikeArticle jsstring
  | GetTrendingArticles "int option"
  | GetFeaturedArticles "int option"
  | GetComments jsstring
  | CreateComment jsstring jsstring

fun api_request :: "jsstring option \<Rightarrow> api_call \<Rightarrow> http_request" where
  "api_request token (GetArticles ps) =
     \<lparr>req_method = GET, req_url = js ''/articles'', req_params = ps,
      req_body = JUndefined, req_headers = []\<rparr>"
| "api_request token (GetArticle i) =
     \<lparr>req_method = GET, req_url = js ''/articles/'' @ i, req_params = [],
      req_body = JUndefined, req_headers = []\<rparr>"
| "api_request token (CreateArticle d) =
     \<lparr>req_method = POST, req_url = js ''/articles'', req_params = [],
      req_body = article_body d, req_headers = getAuthHeader token\<rparr>"
| "api_request token (UpdateArticle i d) =
     \<lparr>req_method = PUT, req_url = js ''/articles/'' @ i, req_params = [],
      req_body = article_body d, req_headers = getAuthHeader token\<rparr>"
| "api_request token (PublishArticle i) =
     \<lparr>req_method = PUT, req_url = js ''/articles/'' @ i @ js ''/publish'', req_params = [],
      req_body = JObj [], req_headers = getAuthHeader token\<rparr>"
| "api_request token (LikeArticle i) =
     \<lparr>req_method = POST, req_url = js ''/articles/'' @ i @ js ''/like'', req_params = [],
      req_body = JObj [], req_headers = getAuthHeader token\<rparr>"
| "api_request token (GetTrendingArticles limit) =
     \<lparr>req_method = GET, req_url = js ''/articles/trending/list'',
      req_params = [(js ''limit'', JNum (case limit of None \<Rightarrow> 10 | Some n \<Rightarrow> n))],
      req_body = JUndefined, req_headers = []\<rparr>"
| "api_request token (GetFeaturedArticles limit) =
     \<lparr>req_method = GET, req_url = js ''/articles/featured/list'',
      req_params = [(js ''limit'', JNum (case limit of None \<Rightarrow> 10 | Some n \<Rightarrow> n))],
      req_body = JUndefined, req_headers = []\<rparr>"
| "api_request token (GetComments articleId) =
     \<lparr>req_method = GET, req_url = js ''/comments/'' @ articleId, req_params = [],
      req_body = JUndefined, req_headers = []\<rparr>"
| "api_request token (CreateComment articleId content) =
     \<lparr>req_method = POST, req_url = js ''/comments'', req_params = [],
      req_body = JObj [(js ''article_id'', JStr articleId), (js ''content'', JStr content)],
      req_headers = getAuthHeader token\<rparr>"

definition api_perform :: "transport \<Rightarrow> jsstring option \<Rightarrow> api_call \<Rightarrow> jsvalue promise" where
  "api_perform http token call = returns_data (http (api_request token call))"

section \<open>What a page does\<close>

text \<open>
  A handler of a page is modelled by the list of what it does towards the outside, in
  order (the calls of the wrappers above, toasts, navigation), together with the state of
  the component once it has run. The answer to the call it awaits is a parameter, already
  decoded to the fields the page reads.
\<close>

datatype effect =
    PreventDefault
  | Call api_call
  | ToastError jsstring
  | ToastSuccess jsstring
  | ConsoleError jsstring
  | Navigate jsstring
  | LoadDashboardData

record client_article =
  ca_id :: jsstring
  ca_title :: jsstring
  ca_content :: jsstring
  ca_category :: "jsstring option"
  ca_tags :: "jsstring list"
  ca_status :: jsstring
  ca_featured :: bool
  ca_likes_count :: "jsnumber option"
  ca_views_count :: "jsnumber option"

record client_comment =
  cc_id :: jsstring
  cc_user_name :: jsstring
  cc_content :: jsstring
  cc_created_at :: jsstring

section \<open>The home page (\<^verbatim>\<open>Home\<close> in \<^verbatim>\<open>pages/Home.js\<close>)\<close>

record home_state =
  hs_trendingArticles :: "client_article list"
  hs_featuredArticles :: "client_article list"
  hs_recentArticles :: "client_article list"
  hs_loading :: bool

definition loadArticles_calls :: "api_call list" where
  "loadArticles_calls =
     [GetTrendingArticles (Some 6), GetFeaturedArticles (Some 6),
      GetArticles [(js ''status'', JStr (js ''published''))]]"

definition loadArticles ::
  "client_article list promise \<Rightarrow> client_article list promise \<Rightarrow>
   client_article list promise \<Rightarrow> home_state \<Rightarrow> effect list \<times> home_state" where
  "loadArticles r_trending r_featured r_recent st =
     (case (r_trending, r_featured, r_recent) of
        (Fulfils trending, Fulfils featured, Fulfils recent) \<Rightarrow>
          (map Call loadArticles_calls,
           st\<lparr>hs_trendingArticles := trending, hs_featuredArticles := featured,
              hs_recentArticles := take 12 recent, hs_loading := False\<rparr>)
      | _ \<Rightarrow>
          (map Call loadArticles_calls @ [ConsoleError (js ''Failed to load articles:'')],
           st\<lparr>hs_loading := False\<rparr>))"

section \<open>The article page (\<^verbatim>\<open>ArticleDetail\<close> in \<^verbatim>\<open>pages/Home.js\<close>)\<close>

record detail_state =
  ds_article :: "client_article option"
  ds_comments :: "client_comment list"
  ds_relatedArticles :: "client_article list"
  ds_newComment :: jsstring
  ds_loading :: bool
  ds_liked :: bool
  ds_submittingComment :: bool

definition loadArticleData ::
  "jsstring \<Rightarrow> client_article promise \<Rightarrow> client_comment list promise \<Rightarrow>
   client_article list promise \<Rightarrow> detail_state \<Rightarrow> effect list \<times> detail_state" where
  "loadArticleData id' r_article r_comments r_all st =
     (let calls = [Call (GetArticle id'), Call (GetComments id'),
                   Call (GetArticles [(js ''status'', JStr (js ''published''))])]
      in case (r_article, r_comments, r_all) of
        (Fulfils articleData, Fulfils commentsData, Fulfils allArticles) \<Rightarrow>
          (calls,
           st\<lparr>ds_article := Some articleData,
              ds_comments := commentsData,
              ds_relatedArticles :=
                take 3 (filter (\<lambda>a. ca_id a \<noteq> id' \<and> ca_category a = ca_category articleData)
                          allArticles),
              ds_loading := False\<rparr>)
      | _ \<Rightarrow>
          (calls @ [ConsoleError (js ''Failed to load article:''),
                    ToastError (js ''Failed to load article'')],
           st\<lparr>ds_loading := False\<rparr>))"

text \<open>
  The updater \<^verbatim>\<open>prev => ({...prev, likes_count: ...})\<close> of \<open>handleLike\<close>. The like button
  is rendered only once the article is loaded, so the updater runs on an article. Its
  \<^verbatim>\<open>likes_count\<close> is a number or is missing; the sum and the difference are those of
  doubles.
\<close>

definition like_update :: "bool \<Rightarrow> client_article \<Rightarrow> client_article" where
  "like_update liked prev =
     prev\<lparr>ca_likes_count :=
            Some (if liked then js_add (to_number (ca_likes_count prev)) (Num 1)
                  else js_subtract (to_number (ca_likes_count prev)) (Num 1))\<rparr>"

definition handleLike ::
  "jsvalue \<Rightarrow> jsstring \<Rightarrow> bool promise \<Rightarrow> detail_state \<Rightarrow> effect list \<times> detail_state" where
  "handleLike user id' response st =
     (if \<not> truthy user then
        ([ToastError (js ''Please sign in to like articles''), Navigate (js ''/signin'')], st)
      else
        (case response of
           Fulfils liked \<Rightarrow>
             ([Call (LikeArticle id'),
               ToastSuccess (if liked then js ''Article liked!'' else js ''Article unliked'')],
              st\<lparr>ds_liked := liked,
                 ds_article := map_option (like_update liked) (ds_article st)\<rparr>)
         | Rejects \<Rightarrow>
             ([Call (LikeArticle id'), ConsoleError (js ''Failed to like article:''),
               ToastError (js ''Failed to like article'')],
              st)))"

definition handleCommentSubmit ::
  "jsvalue \<Rightarrow> jsstring \<Rightarrow> unit promise \<Rightarrow> detail_state \<Rightarrow> effect list \<times> detail_state" where
  "handleCommentSubmit user id' response st =
     (if \<not> truthy user then
        ([PreventDefault, ToastError (js ''Please sign in to comment''),
          Navigate (js ''/signin'')], st)
      else if trim (ds_newComment st) = [] then
        ([PreventDefault, ToastError (js ''Comment cannot be empty'')], st)
      else
        (case response of
           Fulfils u \<Rightarrow>
             ([PreventDefault, Call (CreateComment id' (ds_newComment st)),
               ToastSuccess (js ''Comment submitted! It will appear after moderation.'')],
              st\<lparr>ds_newComment := [], ds_submittingComment := False\<rparr>)
         | Rejects \<Rightarrow>
             ([PreventDefault, Call (CreateComment id' (ds_newComment st)),
               ConsoleError (js ''Failed to submit comment:''),
               ToastError (js ''Failed to submit comment'')],
              st\<lparr>ds_submittingComment := False\<rparr>)))"

section \<open>The article editor (\<^verbatim>\<open>ArticleEditor\<close>)\<close>

record editor_state =
  es_title :: jsstring
  es_content :: jsstring
  es_category :: jsstring
  es_tags :: jsstring
  es_loading :: bool

text \<open>\<^verbatim>\<open>!!id && id !== 'new'\<close>, for the route parameter \<^verbatim>\<open>id\<close> (absent, or a string).\<close>

definition isEditMode :: "jsstring option \<Rightarrow> bool" where
  "isEditMode id' = (case id' of None \<Rightarrow> False | Some i \<Rightarrow> i \<noteq> [] \<and> i \<noteq> js ''new'')"

text \<open>
  The effect that runs when the editor is shown, and again when the user changes. In edit
  mode it goes on to \<open>loadArticle\<close>, which is represented by the call it starts with.
\<close>

definition editor_useEffect :: "jsvalue \<Rightarrow> jsstring option \<Rightarrow> effect list" where
  "editor_useEffect user id' =
     (if \<not> truthy user \<or> \<not> isWriter user then
        [Navigate (js ''/''), ToastError (js ''You must be a writer to create articles'')]
      else
        (case id' of
           None \<Rightarrow> []
         | Some i \<Rightarrow> if isEditMode id' then [Call (GetArticle i)] else []))"

definition articleData :: "editor_state \<Rightarrow> article_data" where
  "articleData st =
     \<lparr>ad_title = trim (es_title st),
      ad_content = trim (es_content st),
      ad_category = (if trim (es_category st) = [] then None else Some (trim (es_category st))),
      ad_tags = filter (\<lambda>t. t \<noteq> []) (map trim (split_on 0x2C (es_tags st)))\<rparr>"

text \<open>
  \<open>handleSubmit\<close>. The answer it awaits is that of \<open>updateArticle\<close> in edit mode and that
  of \<open>createArticle\<close> otherwise; of the latter the page reads the id of the new article.
\<close>

definition handleSubmit ::
  "jsstring option \<Rightarrow> jsstring promise \<Rightarrow> editor_state \<Rightarrow> effect list \<times> editor_state" where
  "handleSubmit id' response st =
     (if trim (es_title st) = [] \<or> trim (es_content st) = [] then
        ([PreventDefault, ToastError (js ''Title and content are required'')], st)
      else
        (case (if isEditMode id' then id' else None) of
           Some i \<Rightarrow>
             (case response of
                Fulfils r \<Rightarrow>
                  ([PreventDefault, Call (UpdateArticle i (articleData st)),
                    ToastSuccess (js ''Article updated successfully!''),
                    Navigate (js ''/article/'' @ i)],
                   st\<lparr>es_loading := False\<rparr>)
              | Rejects \<Rightarrow>
                  ([PreventDefault, Call (UpdateArticle i (articleData st)),
                    ConsoleError (js ''Failed to save article:''),
                    ToastError (js ''Failed to save article'')],
                   st\<lparr>es_loading := False\<rparr>))
         | None \<Rightarrow>
             (case response of
                Fulfils newId \<Rightarrow>
                  ([PreventDefault, Call (CreateArticle (articleData st)),
                    ToastSuccess (js ''Article created successfully!''),
                    Navigate (js ''/article/'' @ newId)],
                   st\<lparr>es_loading := False\<rparr>)
              | Rejects \<Rightarrow>
                  ([PreventDefault, Call (CreateArticle (articleData st)),
                    ConsoleError (js ''Failed to save article:''),
                    ToastError (js ''Failed to save article'')],
                   st\<lparr>es_loading := False\<rparr>))))"

section \<open>The dashboard (\<^verbatim>\<open>WriterDashboard\<close>)\<close>

datatype card_button = PublishButton | ViewButton | EditButton | DeleteButton

text \<open>The buttons of an article's card: Publish only on a draft.\<close>

definition card_buttons :: "client_article \<Rightarrow> card_button list" where
  "card_buttons article =
     (if ca_status article = js ''draft'' then [PublishButton] else []) @
     [ViewButton, EditButton, DeleteButton]"

definition handlePublish :: "jsstring \<Rightarrow> unit promise \<Rightarrow> effect list" where
  "handlePublish articleId response =
     (case response of
        Fulfils u \<Rightarrow>
          [Call (PublishArticle articleId),
           ToastSuccess (js ''Article published successfully!''), LoadDashboardData]
      | Rejects \<Rightarrow>
          [Call (PublishArticle articleId), ToastError (js ''Failed to publish article'')])"

chapter \<open>The server, modelled from the specification\<close>

text \<open>
  The client above only sends requests; likes, publication, moderation and the ranked
  listings are decided by the server, whose code is not in the repository's sources.
  Its operations are modelled here from the words of the specification (sections 3 and
  4). Ids are natural numbers handed out by a counter, so that an id is never used
  twice; times are integers; an operation that stamps a time takes it as a parameter.
\<close>

section \<open>Data model\<close>

text \<open>Modelled from the spec: the roles of section 3, \<^verbatim>\<open>role \<in> {reader, writer, admin}\<close>.\<close>

datatype role = Reader | Writer | Admin

text \<open>
  Modelled from the spec: the result of the identity resolver of section 4.1,
  \<^verbatim>\<open>{userId, role} | Anonymous\<close>, with the user's name (the snapshot a comment keeps).
\<close>

datatype actor = Anonymous | Actor nat jsstring role

text \<open>Modelled from the spec: the error taxonomy of section 7.\<close>

datatype error = NotFound | PermissionDenied | ValidationError | InvalidTransition

text \<open>Modelled from the spec: \<^verbatim>\<open>status \<in> {draft, published}\<close> of an article.\<close>

datatype article_status = Draft | Published

text \<open>Modelled from the spec: \<^verbatim>\<open>status \<in> {pending, approved, rejected}\<close> of a comment.\<close>

datatype comment_status = Pending | Approved | Rejected

text \<open>Modelled from the spec: the Article of section 3.\<close>

record article =
  art_id :: nat
  art_title :: jsstring
  art_content :: jsstring
  art_author_id :: nat
  art_category :: "jsstring option"
  art_tags :: "jsstring list"
  art_status :: article_status
  art_featured :: bool
  art_likes_count :: int
  art_views_count :: int
  art_created_at :: int
  art_updated_at :: int
  art_published_at :: "int option"

text \<open>Modelled from the spec: the Comment of section 3.\<close>

record comment =
  com_id :: nat
  com_article_id :: nat
  com_user_id :: nat
  com_user_name :: jsstring
  com_content :: jsstring
  com_status :: comment_status
  com_created_at :: int

text \<open>
  Modelled from the spec: the persisted state. A Like is the pair (article id, user id);
  the likes are a set, so a pair occurs at most once.
\<close>

record store =
  articles :: "article list"
  likes :: "(nat \<times> nat) set"
  comments :: "comment list"
  next_id :: nat

text \<open>Modelled from the spec: the persisted state before any operation.\<close>

definition empty_store :: store where
  "empty_store = \<lparr>articles = [], likes = {}, comments = [], next_id = 0\<rparr>"

text \<open>
  Modelled from the spec: the lookup of an article by its id; \<open>None\<close> is what the
  operations report as NotFound.
\<close>

definition find_article :: "nat \<Rightarrow> store \<Rightarrow> article option" where
  "find_article aid s = find (\<lambda>a. art_id a = aid) (articles s)"

text \<open>Modelled from the spec: the lookup of a comment by its id.\<close>

definition find_comment :: "nat \<Rightarrow> store \<Rightarrow> comment option" where
  "find_comment cid s = find (\<lambda>c. com_id c = cid) (comments s)"

text \<open>
  Modelled from the spec: the write of a changed article, which leaves every other article,
  the likes and the comments as they are.
\<close>

definition change_article :: "nat \<Rightarrow> (article \<Rightarrow> article) \<Rightarrow> store \<Rightarrow> store" where
  "change_article aid f s =
     s\<lparr>articles := map (\<lambda>a. if art_id a = aid then f a else a) (articles s)\<rparr>"

text \<open>Modelled from the spec: the write of a changed comment.\<close>

definition change_comment :: "nat \<Rightarrow> (comment \<Rightarrow> comment) \<Rightarrow> store \<Rightarrow> store" where
  "change_comment cid f s =
     s\<lparr>comments := map (\<lambda>c. if com_id c = cid then f c else c) (comments s)\<rparr>"

section \<open>Permission gate\<close>

text \<open>Modelled from the spec: the actions, one per row of the table of section 4.2.\<close>

datatype action =
    ReadPublic
  | DoCreateArticle
  | DoModifyArticle
  | DoToggleLike
  | DoCreateComment
  | DoModerateComment
  | DoManageRoles

text \<open>
  Modelled from the spec: \<^verbatim>\<open>canPerform\<close>, the table of section 4.2. The resource is given
  by its owner: the author of the article, or of the parent article of the comment.
\<close>

fun canPerform :: "actor \<Rightarrow> action \<Rightarrow> nat option \<Rightarrow> bool" where
  "canPerform Anonymous act owner = (act = ReadPublic)"
| "canPerform (Actor uid name Admin) act owner = True"
| "canPerform (Actor uid name Reader) act owner =
     (act = ReadPublic \<or> act = DoToggleLike \<or> act = DoCreateComment)"
| "canPerform (Actor uid name Writer) act owner =
     (act = ReadPublic \<or> act = DoCreateArticle \<or> act = DoToggleLike \<or>
      act = DoCreateComment \<or>
      ((act = DoModifyArticle \<or> act = DoModerateComment) \<and> owner = Some uid))"

section \<open>Article lifecycle\<close>

text \<open>Modelled from the spec: the \<^verbatim>\<open>fields\<close> given to \<^verbatim>\<open>create\<close> in section 4.3.\<close>

record article_fields =
  fld_title :: jsstring
  fld_content :: jsstring
  fld_category :: "jsstring option"
  fld_tags :: "jsstring list"

text \<open>
  Modelled from the spec: \<^verbatim>\<open>create(authorId, fields)\<close> of section 4.3. The new article is a
  draft with no likes and no views; an empty title or content is a ValidationError.
\<close>

definition article_create ::
  "actor \<Rightarrow> article_fields \<Rightarrow> int \<Rightarrow> store \<Rightarrow> error + article \<times> store" where
  "article_create who flds now s =
     (case who of
        Anonymous \<Rightarrow> Inl PermissionDenied
      | Actor uid name r \<Rightarrow>
          if \<not> canPerform who DoCreateArticle None then Inl PermissionDenied
          else if fld_title flds = [] \<or> fld_content flds = [] then Inl ValidationError
          else
            (let a = \<lparr>art_id = next_id s, art_title = fld_title flds,
                      art_content = fld_content flds, art_author_id = uid,
                      art_category = fld_category flds, art_tags = fld_tags flds,
                      art_status = Draft, art_featured = False, art_likes_count = 0,
                      art_views_count = 0, art_created_at = now, art_updated_at = now,
                      art_published_at = None\<rparr>
             in Inr (a, s\<lparr>articles := articles s @ [a], next_id := Suc (next_id s)\<rparr>)))"

text \<open>
  Modelled from the spec: the \<^verbatim>\<open>patch\<close> given to \<^verbatim>\<open>update\<close> in section 4.3; a field that is
  \<open>None\<close> is not part of the patch.
\<close>

record article_patch =
  pat_title :: "jsstring option"
  pat_content :: "jsstring option"
  pat_category :: "jsstring option option"
  pat_tags :: "jsstring list option"
  pat_featured :: "bool option"

text \<open>
  Modelled from the spec: the merge of \<^verbatim>\<open>update\<close> in section 4.3: the permitted fields
  (title, content, category, tags, and \<^verbatim>\<open>featured\<close> only for an admin) are taken from the
  patch where it gives them, and \<^verbatim>\<open>updated_at\<close> is set; status, \<^verbatim>\<open>published_at\<close> and the
  counters are not touched.
\<close>

definition merge_patch :: "actor \<Rightarrow> article_patch \<Rightarrow> int \<Rightarrow> article \<Rightarrow> article" where
  "merge_patch who patch now a =
     a\<lparr>art_title := (case pat_title patch of None \<Rightarrow> art_title a | Some v \<Rightarrow> v),
       art_content := (case pat_content patch of None \<Rightarrow> art_content a | Some v \<Rightarrow> v),
       art_category := (case pat_category patch of None \<Rightarrow> art_category a | Some v \<Rightarrow> v),
       art_tags := (case pat_tags patch of None \<Rightarrow> art_tags a | Some v \<Rightarrow> v),
       art_featured :=
         (case (who, pat_featured patch) of
            (Actor uid name Admin, Some v) \<Rightarrow> v
          | _ \<Rightarrow> art_featured a),
       art_updated_at := now\<rparr>"

text \<open>
  Modelled from the spec: \<^verbatim>\<open>update(actorId, articleId, patch)\<close> of section 4.3, for the
  owner or an admin.
\<close>

definition article_update ::
  "actor \<Rightarrow> nat \<Rightarrow> article_patch \<Rightarrow> int \<Rightarrow> store \<Rightarrow> error + store" where
  "article_update who aid patch now s =
     (case find_article aid s of
        None \<Rightarrow> Inl NotFound
      | Some a \<Rightarrow>
          if \<not> canPerform who DoModifyArticle (Some (art_author_id a)) then Inl PermissionDenied
          else Inr (change_article aid (merge_patch who patch now) s))"

text \<open>
  Modelled from the spec: \<^verbatim>\<open>publish(actorId, articleId)\<close> of section 4.3: for the owner or
  an admin; success without change when the article is already published; on the first
  transition the status becomes published and \<^verbatim>\<open>published_at\<close> the current time.
\<close>

definition article_publish :: "actor \<Rightarrow> nat \<Rightarrow> int \<Rightarrow> store \<Rightarrow> error + store" where
  "article_publish who aid now s =
     (case find_article aid s of
        None \<Rightarrow> Inl NotFound
      | Some a \<Rightarrow>
          if \<not> canPerform who DoModifyArticle (Some (art_author_id a)) then Inl PermissionDenied
          else if art_status a = Published then Inr s
          else Inr (change_article aid
                      (\<lambda>a. a\<lparr>art_status := Published, art_published_at := Some now\<rparr>) s))"

text \<open>
  Modelled from the spec: \<^verbatim>\<open>delete(actorId, articleId)\<close> of section 4.3: the article goes,
  and with it its likes and its comments.
\<close>

definition article_delete :: "actor \<Rightarrow> nat \<Rightarrow> store \<Rightarrow> error + store" where
  "article_delete who aid s =
     (case find_article aid s of
        None \<Rightarrow> Inl NotFound
      | Some a \<Rightarrow>
          if \<not> canPerform who DoModifyArticle (Some (art_author_id a)) then Inl PermissionDenied
          else Inr (s\<lparr>articles := filter (\<lambda>a. art_id a \<noteq> aid) (articles s),
                       likes := Set.filter (\<lambda>l. fst l \<noteq> aid) (likes s),
                       comments := filter (\<lambda>c. com_article_id c \<noteq> aid) (comments s)\<rparr>))"

text \<open>Modelled from the spec: \<^verbatim>\<open>recordView(articleId)\<close> of section 4.3.\<close>

definition recordView :: "nat \<Rightarrow> store \<Rightarrow> error + store" where
  "recordView aid s =
     (case find_article aid s of
        None \<Rightarrow> Inl NotFound
      | Some a \<Rightarrow>
          Inr (change_article aid (\<lambda>a. a\<lparr>art_views_count := art_views_count a + 1\<rparr>) s))"

text \<open>
  Modelled from the spec: \<^verbatim>\<open>toggleLike(actorId, articleId)\<close> of section 4.3: if the Like
  exists, remove it, decrement \<^verbatim>\<open>likes_count\<close> by 1 and return \<^verbatim>\<open>liked=false\<close>; else insert
  it, increment \<^verbatim>\<open>likes_count\<close> by 1 and return \<^verbatim>\<open>liked=true\<close>.
\<close>

definition toggleLike :: "actor \<Rightarrow> nat \<Rightarrow> store \<Rightarrow> error + bool \<times> store" where
  "toggleLike who aid s =
     (case who of
        Anonymous \<Rightarrow> Inl PermissionDenied
      | Actor uid name r \<Rightarrow>
          if \<not> canPerform who DoToggleLike None then Inl PermissionDenied
          else
            (case find_article aid s of
               None \<Rightarrow> Inl NotFound
             | Some a \<Rightarrow>
                 if (aid, uid) \<in> likes s then
                   Inr (False,
                        change_article aid (\<lambda>a. a\<lparr>art_likes_count := art_likes_count a - 1\<rparr>)
                          (s\<lparr>likes := likes s - {(aid, uid)}\<rparr>))
                 else
                   Inr (True,
                        change_article aid (\<lambda>a. a\<lparr>art_likes_count := art_likes_count a + 1\<rparr>)
                          (s\<lparr>likes := insert (aid, uid) (likes s)\<rparr>))))"

section \<open>Comment moderation\<close>

text \<open>
  Modelled from the spec: \<^verbatim>\<open>create(actorId, articleId, content)\<close> of section 4.4: for an
  authenticated actor and a non-empty content; the comment is pending and keeps the
  actor's name.
\<close>

definition comment_create ::
  "actor \<Rightarrow> nat \<Rightarrow> jsstring \<Rightarrow> int \<Rightarrow> store \<Rightarrow> error + comment \<times> store" where
  "comment_create who aid content now s =
     (case who of
        Anonymous \<Rightarrow> Inl PermissionDenied
      | Actor uid name r \<Rightarrow>
          if \<not> canPerform who DoCreateComment None then Inl PermissionDenied
          else if content = [] then Inl ValidationError
          else
            (case find_article aid s of
               None \<Rightarrow> Inl NotFound
             | Some a \<Rightarrow>
                 (let c = \<lparr>com_id = next_id s, com_article_id = aid, com_user_id = uid,
                           com_user_name = name, com_content = content,
                           com_status = Pending, com_created_at = now\<rparr>
                  in Inr (c, s\<lparr>comments := comments s @ [c], next_id := Suc (next_id s)\<rparr>))))"

text \<open>
  Modelled from the spec: the owner of a comment in the sense of section 4.2, the author
  of its parent article.
\<close>

definition comment_owner :: "comment \<Rightarrow> store \<Rightarrow> nat option" where
  "comment_owner c s = map_option art_author_id (find_article (com_article_id c) s)"

text \<open>
  Modelled from the spec: the one-shot decision of section 4.4, shared by \<^verbatim>\<open>approve\<close> and
  \<^verbatim>\<open>reject\<close>: for the author of the parent article or an admin, from pending only.
\<close>

definition moderate :: "comment_status \<Rightarrow> actor \<Rightarrow> nat \<Rightarrow> store \<Rightarrow> error + store" where
  "moderate decision who cid s =
     (case find_comment cid s of
        None \<Rightarrow> Inl NotFound
      | Some c \<Rightarrow>
          if \<not> canPerform who DoModerateComment (comment_owner c s) then Inl PermissionDenied
          else if com_status c \<noteq> Pending then Inl InvalidTransition
          else Inr (change_comment cid (\<lambda>c. c\<lparr>com_status := decision\<rparr>) s))"

text \<open>Modelled from the spec: \<^verbatim>\<open>approve(actorId, commentId)\<close> of section 4.4.\<close>

definition comment_approve :: "actor \<Rightarrow> nat \<Rightarrow> store \<Rightarrow> error + store" where
  "comment_approve = moderate Approved"

text \<open>Modelled from the spec: \<^verbatim>\<open>reject(actorId, commentId)\<close> of section 4.4.\<close>

definition comment_reject :: "actor \<Rightarrow> nat \<Rightarrow> store \<Rightarrow> error + store" where
  "comment_reject = moderate Rejected"

text \<open>
  Modelled from the spec: \<^verbatim>\<open>delete(actorId, commentId)\<close> of section 4.4: from any status,
  the comment is removed.
\<close>

definition comment_delete :: "actor \<Rightarrow> nat \<Rightarrow> store \<Rightarrow> error + store" where
  "comment_delete who cid s =
     (case find_comment cid s of
        None \<Rightarrow> Inl NotFound
      | Some c \<Rightarrow>
          if \<not> canPerform who DoModerateComment (comment_owner c s) then Inl PermissionDenied
          else Inr (s\<lparr>comments := filter (\<lambda>c. com_id c \<noteq> cid) (comments s)\<rparr>))"

text \<open>
  Modelled from the spec: \<^verbatim>\<open>listApproved(articleId)\<close> of section 4.4: public; only the
  approved comments of the article, by \<^verbatim>\<open>created_at\<close> ascending. This is what the client's
  \<open>getComments\<close> receives. For an article that does not exist the list is empty.
\<close>

definition listApproved :: "nat \<Rightarrow> store \<Rightarrow> comment list" where
  "listApproved aid s =
     sort_key com_created_at
       (filter (\<lambda>c. com_article_id c = aid \<and> com_status c = Approved) (comments s))"

text \<open>
  Modelled from the spec: \<^verbatim>\<open>listPending(actorId)\<close> of section 4.4: for a writer the pending
  comments on the writer's own articles, for an admin all pending comments.
\<close>

definition listPending :: "actor \<Rightarrow> store \<Rightarrow> error + comment list" where
  "listPending who s =
     (case who of
        Actor uid name Admin \<Rightarrow> Inr (filter (\<lambda>c. com_status c = Pending) (comments s))
      | Actor uid name Writer \<Rightarrow>
          Inr (filter (\<lambda>c. com_status c = Pending \<and> comment_owner c s = Some uid) (comments s))
      | _ \<Rightarrow> Inl PermissionDenied)"

section \<open>Trending and featured selectors\<close>

text \<open>Modelled from the spec: the published articles, which the three selectors rank.\<close>

definition published :: "store \<Rightarrow> article list" where
  "published s = filter (\<lambda>a. art_status a = Published) (articles s)"

text \<open>
  Modelled from the spec: \<^verbatim>\<open>trending(limit)\<close> of section 4.5: published articles by
  \<^verbatim>\<open>likes_count\<close> descending, ties by \<^verbatim>\<open>created_at\<close> descending, cut at the limit. The key
  is the pair of the negated count and the negated time, compared lexicographically.
\<close>

definition trending :: "nat \<Rightarrow> store \<Rightarrow> article list" where
  "trending limit s =
     take limit (sort_key (\<lambda>a. (- art_likes_count a, - art_created_at a)) (published s))"

text \<open>
  The order of section 4.5 in its own words, to compare \<open>trending\<close> with: \<open>a\<close> may stand
  before \<open>b\<close> when it has more likes, or as many and is not older.
\<close>

definition ranks_before :: "article \<Rightarrow> article \<Rightarrow> bool" where
  "ranks_before a b \<longleftrightarrow>
     art_likes_count b < art_likes_count a \<or>
     (art_likes_count a = art_likes_count b \<and> art_created_at b \<le> art_created_at a)"

text \<open>
  Modelled from the spec: \<^verbatim>\<open>featured(limit)\<close> of section 4.5: published articles with
  \<^verbatim>\<open>featured=true\<close>, by \<^verbatim>\<open>created_at\<close> descending, cut at the limit.
\<close>

definition featured :: "nat \<Rightarrow> store \<Rightarrow> article list" where
  "featured limit s =
     take limit (sort_key (\<lambda>a. - art_created_at a) (filter art_featured (published s)))"

text \<open>Modelled from the spec: the optional \<^verbatim>\<open>{category, author_id, tag}\<close> of section 4.5.\<close>

record listing_filters =
  flt_category :: "jsstring option"
  flt_author_id :: "nat option"
  flt_tag :: "jsstring option"

text \<open>
  Modelled from the spec: \<^verbatim>\<open>listPublished(filters)\<close> of section 4.5: published articles
  matching the optional category, author and tag, by \<^verbatim>\<open>created_at\<close> descending.
\<close>

definition listPublished :: "listing_filters \<Rightarrow> store \<Rightarrow> article list" where
  "listPublished filters s =
     sort_key (\<lambda>a. - art_created_at a)
       (filter (\<lambda>a. (case flt_category filters of None \<Rightarrow> True
                      | Some c \<Rightarrow> art_category a = Some c) \<and>
                     (case flt_author_id filters of None \<Rightarrow> True
                      | Some u \<Rightarrow> art_author_id a = u) \<and>
                     (case flt_tag filters of None \<Rightarrow> True
                      | Some g \<Rightarrow> g \<in> set (art_tags a)))
          (published s))"

section \<open>Sequences of operations\<close>

text \<open>
  Modelled from the spec: the mutating operations of sections 4.3 and 4.4 as requests. A
  request that fails changes nothing (section 7: no operation partially applies).
\<close>

datatype operation =
    CreateArticleOp actor article_fields int
  | UpdateArticleOp actor nat article_patch int
  | PublishOp actor nat int
  | DeleteArticleOp actor nat
  | RecordViewOp nat
  | ToggleLikeOp actor nat
  | CreateCommentOp actor nat jsstring int
  | ApproveOp actor nat
  | RejectOp actor nat
  | DeleteCommentOp actor nat

text \<open>
  Modelled from the spec: the store after a request: that of the operation when it
  succeeds, the store as it was when it fails.
\<close>

fun exec :: "store \<Rightarrow> operation \<Rightarrow> store" where
  "exec s (CreateArticleOp who flds now) =
     (case article_create who flds now s of Inl e \<Rightarrow> s | Inr (a, s') \<Rightarrow> s')"
| "exec s (UpdateArticleOp who aid patch now) =
     (case article_update who aid patch now s of Inl e \<Rightarrow> s | Inr s' \<Rightarrow> s')"
| "exec s (PublishOp who aid now) =
     (case article_publish who aid now s of Inl e \<Rightarrow> s | Inr s' \<Rightarrow> s')"
| "exec s (DeleteArticleOp who aid) =
     (case article_delete who aid s of Inl e \<Rightarrow> s | Inr s' \<Rightarrow> s')"
| "exec s (RecordViewOp aid) =
     (case recordView aid s of Inl e \<Rightarrow> s | Inr s' \<Rightarrow> s')"
| "exec s (ToggleLikeOp who aid) =
     (case toggleLike who aid s of Inl e \<Rightarrow> s | Inr (liked, s') \<Rightarrow> s')"
| "exec s (CreateCommentOp who aid content now) =
     (case comment_create who aid content now s of Inl e \<Rightarrow> s | Inr (c, s') \<Rightarrow> s')"
| "exec s (ApproveOp who cid) =
     (case comment_approve who cid s of Inl e \<Rightarrow> s | Inr s' \<Rightarrow> s')"
| "exec s (RejectOp who cid) =
     (case comment_reject who cid s of Inl e \<Rightarrow> s | Inr s' \<Rightarrow> s')"
| "exec s (DeleteCommentOp who cid) =
     (case comment_delete who cid s of Inl e \<Rightarrow> s | Inr s' \<Rightarrow> s')"

text \<open>Modelled from the spec: requests served one after the other (section 5).\<close>

definition run :: "store \<Rightarrow> operation list \<Rightarrow> store" where
  "run s ops = foldl exec s ops"

text \<open>Every id in the store was handed out by the counter.\<close>

definition ids_issued :: "store \<Rightarrow> bool" where
  "ids_issued s \<longleftrightarrow>
     list_all (\<lambda>a. art_id a < next_id s) (articles s) \<and>
     list_all (\<lambda>c. com_id c < next_id s) (comments s)"

text \<open>
  Article \<open>aid\<close> has been issued and, as long as it exists, is published with
  \<^verbatim>\<open>published_at\<close> equal to \<open>t\<close>.
\<close>

definition published_at_fixed :: "nat \<Rightarrow> int \<Rightarrow> store \<Rightarrow> bool" where
  "published_at_fixed aid t s \<longleftrightarrow>
     aid < next_id s \<and>
     (\<forall>a \<in> set (articles s).
        art_id a = aid \<longrightarrow> art_status a = Published \<and> art_published_at a = Some t)"

text \<open>
  Comment \<open>cid\<close> has been issued and, as long as it exists, has one of the statuses
  \<open>allowed\<close>.
\<close>

definition comment_held :: "nat \<Rightarrow> comment_status set \<Rightarrow> store \<Rightarrow> bool" where
  "comment_held cid allowed s \<longleftrightarrow>
     cid < next_id s \<and>
     (\<forall>c \<in> set (comments s). com_id c = cid \<longrightarrow> com_status c \<in> allowed)"

text \<open>The ids under which an article's approved comments are listed.\<close>

definition listed_ids :: "nat \<Rightarrow> store \<Rightarrow> nat list" where
  "listed_ids aid s = map com_id (listApproved aid s)"

text \<open>
  Articles and comments for the examples below: all that varies is given, the rest is
  fixed.
\<close>

definition sample_article :: "nat \<Rightarrow> nat \<Rightarrow> article_status \<Rightarrow> int \<Rightarrow> int \<Rightarrow> article" where
  "sample_article aid author status likes_count created_at =
     \<lparr>art_id = aid, art_title = js ''Title'', art_content = js ''Text'',
      art_author_id = author, art_category = None, art_tags = [], art_status = status,
      art_featured = False, art_likes_count = likes_count, art_views_count = 0,
      art_created_at = created_at, art_updated_at = created_at,
      art_published_at = (if status = Published then Some created_at else None)\<rparr>"

definition sample_comment :: "nat \<Rightarrow> nat \<Rightarrow> nat \<Rightarrow> comment_status \<Rightarrow> int \<Rightarrow> comment" where
  "sample_comment cid aid user status created_at =
     \<lparr>com_id = cid, com_article_id = aid, com_user_id = user, com_user_name = js ''Ann'',
      com_content = js ''nice post'', com_status = status, com_created_at = created_at\<rparr>"

definition sample_client_article :: "jsstring \<Rightarrow> jsstring \<Rightarrow> int \<Rightarrow> client_article" where
  "sample_client_article aid status likes_count =
     \<lparr>ca_id = aid, ca_title = js ''Title'', ca_content = js ''Text'', ca_category = None,
      ca_tags = [], ca_status = status, ca_featured = False,
      ca_likes_count = Some (Num likes_count), ca_views_count = Some (Num 0)\<rparr>"

chapter \<open>Properties\<close>

section \<open>Properties of the client\<close>

subsection \<open>Strings\<close>

lemma length_js [simp]: "length (js s) = length s"
  by (simp add: js_def)

lemma length_trim_le: "length (trim s) \<le> length s"
proof -
  have "length (trim s) \<le> length (dropWhile isWhiteSpace s)"
    unfolding trim_def by (metis length_dropWhile_le length_rev)
  also have "\<dots> \<le> length s"
    by (rule length_dropWhile_le)
  finally show ?thesis .
qed

lemma substring_prefix: "0 \<le> n \<Longrightarrow> substring s 0 n = take (nat n) s"
  by (simp add: substring_def Let_def min_def max_def)

subsection \<open>Truncated previews\<close>

text \<open>
  C9, as the code has it. \<^verbatim>\<open>truncateContent(content, 150)\<close> returns \<open>content\<close> unchanged
  when it has at most 150 code units. Otherwise it returns the first 150 code units,
  trimmed, followed by \<^verbatim>\<open>...\<close>, and this result ends with \<^verbatim>\<open>...\<close>. In both cases the
  result has at most 153 code units.
\<close>

theorem truncateContent_spec:
  "(int (length content) \<le> 150 \<longrightarrow> truncateContent content 150 = content) \<and>
   (150 < int (length content) \<longrightarrow>
      truncateContent content 150 = trim (take 150 content) @ js ''...'' \<and>
      suffix (js ''...'') (truncateContent content 150)) \<and>
   length (truncateContent content 150) \<le> 153"
proof -
  have short: "int (length content) \<le> 150 \<Longrightarrow> truncateContent content 150 = content"
    by (simp add: truncateContent_def)
  have long: "truncateContent content 150 = trim (take 150 content) @ js ''...''"
    if "150 < int (length content)"
    using that by (simp add: truncateContent_def substring_prefix)
  have len: "length (truncateContent content 150) \<le> 153"
  proof (cases "int (length content) \<le> 150")
    case True
    then show ?thesis by (simp add: short)
  next
    case False
    then have "truncateContent content 150 = trim (take 150 content) @ js ''...''"
      by (simp add: long)
    moreover have "length (trim (take 150 content)) \<le> 150"
      using length_trim_le [of "take 150 content"] by simp
    ultimately show ?thesis by simp
  qed
  show ?thesis using short long len by (simp add: suffix_def)
qed

text \<open>
  A content of 155 code units, \<^verbatim>\<open>"  ab "\<close> followed by 150 spaces, is cut to its first 150
  code units, which trim to \<^verbatim>\<open>"ab"\<close>.
\<close>

theorem truncateContent_spec_witness:
  "truncateContent (js ''  ab '' @ replicate 150 0x20) 150 = js ''ab...''"
proof -
  let ?c = "js ''  ab '' @ replicate 150 (0x20 :: code_unit)"
  have "150 < int (length ?c)"
    by simp
  with truncateContent_spec [of ?c]
  have "truncateContent ?c 150 = trim (take 150 ?c) @ js ''...''"
    by blast
  also have "\<dots> = js ''ab...''"
    by code_simp
  finally show ?thesis .
qed

text \<open>
  The two equivalences of C9 as stated do not hold. The content \<^verbatim>\<open>"..."\<close> is three code
  units long and is returned as it is, so the result ends with \<^verbatim>\<open>...\<close> although the
  content is not longer than 150. The content of 150 letters \<^verbatim>\<open>a\<close> followed by \<^verbatim>\<open>...\<close> is
  153 code units long and is returned unchanged as well: cutting it to 150 and appending
  \<^verbatim>\<open>...\<close> gives the content back.
\<close>

theorem truncateContent_iff_counterexample:
  "suffix (js ''...'') (truncateContent (js ''...'') 150) \<and>
   \<not> 150 < int (length (js ''...'')) \<and>
   truncateContent (replicate 150 0x61 @ js ''...'') 150 = replicate 150 0x61 @ js ''...'' \<and>
   \<not> int (length (replicate 150 (0x61 :: code_unit) @ js ''...'')) \<le> 150"
proof -
  have "truncateContent (js ''...'') 150 = js ''...''"
    by (simp add: truncateContent_def)
  moreover have
    "truncateContent (replicate 150 0x61 @ js ''...'') 150 = replicate 150 0x61 @ js ''...''"
    by code_simp
  ultimately show ?thesis
    by simp
qed

subsection \<open>The writer gate of the editor\<close>

lemma isWriter_truthy: "isWriter user \<Longrightarrow> truthy user"
  by (cases user) (simp_all add: isWriter_def)

lemma isReader_not_isWriter: "isReader user \<Longrightarrow> \<not> isWriter user"
  by (simp add: isReader_def isWriter_def js_def)

text \<open>
  C1. \<open>isWriter\<close> holds exactly when the \<^verbatim>\<open>role\<close> of the signed-in user is \<^verbatim>\<open>writer\<close> or
  \<^verbatim>\<open>admin\<close>. The editor turns away (navigates to the home page, with an error toast) exactly
  the actors for whom this fails: it shows the redirect for a missing user and whenever
  \<open>isWriter\<close> is false, in particular for the anonymous visitor (\<open>user\<close> is \<^verbatim>\<open>null\<close>) and for
  a reader.
\<close>

theorem create_article_gate:
  "(isWriter user \<longleftrightarrow>
      opt_member user (js ''role'') = JStr (js ''writer'') \<or>
      opt_member user (js ''role'') = JStr (js ''admin'')) \<and>
   (editor_useEffect user id' =
      [Navigate (js ''/''), ToastError (js ''You must be a writer to create articles'')]
    \<longleftrightarrow> \<not> (opt_member user (js ''role'') = JStr (js ''writer'') \<or>
           opt_member user (js ''role'') = JStr (js ''admin''))) \<and>
   (Navigate (js ''/'') \<in> set (editor_useEffect user id') \<longleftrightarrow> \<not> truthy user \<or> \<not> isWriter user) \<and>
   (user = JNull \<longrightarrow>
      editor_useEffect user id' =
        [Navigate (js ''/''), ToastError (js ''You must be a writer to create articles'')]) \<and>
   (isReader user \<longrightarrow>
      editor_useEffect user id' =
        [Navigate (js ''/''), ToastError (js ''You must be a writer to create articles'')])"
proof -
  have a: "editor_useEffect user id' =
      [Navigate (js ''/''), ToastError (js ''You must be a writer to create articles'')]
    \<longleftrightarrow> \<not> isWriter user"
    using isWriter_truthy [of user]
    by (auto simp add: editor_useEffect_def split: option.splits)
  have b: "Navigate (js ''/'') \<in> set (editor_useEffect user id') \<longleftrightarrow> \<not> truthy user \<or> \<not> isWriter user"
    by (auto simp add: editor_useEffect_def split: option.splits)
  have c: "\<not> isWriter JNull"
    by (simp add: isWriter_def)
  show ?thesis
    using a b c isReader_not_isWriter [of user]
    by (auto simp add: isWriter_def)
qed

text \<open>
  A writer stays in the editor; a reader and the anonymous visitor are sent to the home
  page.
\<close>

theorem create_article_gate_witness:
  "isWriter (JObj [(js ''id'', JStr (js ''u1'')), (js ''role'', JStr (js ''writer''))]) \<and>
   editor_useEffect (JObj [(js ''id'', JStr (js ''u1'')), (js ''role'', JStr (js ''writer''))])
     (Some (js ''new'')) = [] \<and>
   isReader (JObj [(js ''id'', JStr (js ''u2'')), (js ''role'', JStr (js ''reader''))]) \<and>
   editor_useEffect (JObj [(js ''id'', JStr (js ''u2'')), (js ''role'', JStr (js ''reader''))])
     (Some (js ''new'')) =
     [Navigate (js ''/''), ToastError (js ''You must be a writer to create articles'')] \<and>
   editor_useEffect JNull (Some (js ''new'')) =
     [Navigate (js ''/''), ToastError (js ''You must be a writer to create articles'')]"
proof -
  let ?w = "JObj [(js ''id'', JStr (js ''u1'')), (js ''role'', JStr (js ''writer''))]"
  let ?r = "JObj [(js ''id'', JStr (js ''u2'')), (js ''role'', JStr (js ''reader''))]"
  have w: "opt_member ?w (js ''role'') = JStr (js ''writer'')"
    by (simp add: js_def)
  have r: "isReader ?r"
    by (simp add: isReader_def js_def)
  have e: "editor_useEffect ?w (Some (js ''new'')) = []"
    by (simp add: editor_useEffect_def isWriter_def isEditMode_def js_def)
  from create_article_gate [of ?w "Some (js ''new'')"] w
  have "isWriter ?w"
    by blast
  moreover from create_article_gate [of ?r "Some (js ''new'')"] r
  have "editor_useEffect ?r (Some (js ''new'')) =
     [Navigate (js ''/''), ToastError (js ''You must be a writer to create articles'')]"
    by blast
  moreover from create_article_gate [of JNull "Some (js ''new'')"]
  have "editor_useEffect JNull (Some (js ''new'')) =
     [Navigate (js ''/''), ToastError (js ''You must be a writer to create articles'')]"
    by blast
  ultimately show ?thesis
    using r e by simp
qed

subsection \<open>Validation in the editor\<close>

lemma articleData_fields:
  "ad_title (articleData st) = trim (es_title st)"
  "ad_content (articleData st) = trim (es_content st)"
  by (simp_all add: articleData_def)

lemma handleSubmit_calls:
  assumes "Call c \<in> set (fst (handleSubmit id' response st))"
  shows "trim (es_title st) \<noteq> [] \<and> trim (es_content st) \<noteq> [] \<and>
         (if isEditMode id' then c = UpdateArticle (the id') (articleData st)
          else c = CreateArticle (articleData st))"
  using assms
  by (auto simp add: handleSubmit_def isEditMode_def split: if_splits option.splits promise.splits)

lemma handleSubmit_submits:
  assumes "trim (es_title st) \<noteq> []" and "trim (es_content st) \<noteq> []"
  shows "Call (if isEditMode id' then UpdateArticle (the id') (articleData st)
               else CreateArticle (articleData st))
         \<in> set (fst (handleSubmit id' response st))"
  using assms
  by (auto simp add: handleSubmit_def isEditMode_def split: if_splits option.splits promise.splits)

text \<open>
  C5. When the trimmed title or the trimmed content is empty, \<open>handleSubmit\<close> shows the
  error toast, leaves the state as it is and calls neither \<open>createArticle\<close> nor
  \<open>updateArticle\<close>. Every call it makes is \<open>updateArticle\<close> (in edit mode) or
  \<open>createArticle\<close> with the payload \<open>articleData\<close>, whose title and content are the trimmed
  inputs and are not empty; and it makes that call whenever both are non-empty after
  trimming. (The server's own refusal of an empty title or content is
  \<open>article_create_empty\<close> in the model of the server below.)
\<close>

theorem handleSubmit_validation:
  "(trim (es_title st) = [] \<or> trim (es_content st) = [] \<longrightarrow>
      handleSubmit id' response st =
        ([PreventDefault, ToastError (js ''Title and content are required'')], st) \<and>
      (\<forall>c. Call c \<notin> set (fst (handleSubmit id' response st)))) \<and>
   (\<forall>c. Call c \<in> set (fst (handleSubmit id' response st)) \<longrightarrow>
      (if isEditMode id' then c = UpdateArticle (the id') (articleData st)
       else c = CreateArticle (articleData st)) \<and>
      ad_title (articleData st) = trim (es_title st) \<and>
      ad_content (articleData st) = trim (es_content st) \<and>
      ad_title (articleData st) \<noteq> [] \<and> ad_content (articleData st) \<noteq> []) \<and>
   (trim (es_title st) \<noteq> [] \<and> trim (es_content st) \<noteq> [] \<longrightarrow>
      Call (if isEditMode id' then UpdateArticle (the id') (articleData st)
            else CreateArticle (articleData st))
      \<in> set (fst (handleSubmit id' response st)))"
proof (intro conjI impI allI)
  assume "trim (es_title st) = [] \<or> trim (es_content st) = []"
  then show "handleSubmit id' response st =
        ([PreventDefault, ToastError (js ''Title and content are required'')], st)"
    by (auto simp add: handleSubmit_def)
  then show "Call c \<notin> set (fst (handleSubmit id' response st))" for c
    by simp
next
  fix c
  assume c: "Call c \<in> set (fst (handleSubmit id' response st))"
  from handleSubmit_calls [OF c]
  show "if isEditMode id' then c = UpdateArticle (the id') (articleData st)
        else c = CreateArticle (articleData st)"
    and "ad_title (articleData st) \<noteq> []" and "ad_content (articleData st) \<noteq> []"
    by (simp_all add: articleData_fields)
  show "ad_title (articleData st) = trim (es_title st)"
    and "ad_content (articleData st) = trim (es_content st)"
    by (simp_all add: articleData_fields)
next
  assume "trim (es_title st) \<noteq> [] \<and> trim (es_content st) \<noteq> []"
  then show "Call (if isEditMode id' then UpdateArticle (the id') (articleData st)
            else CreateArticle (articleData st))
      \<in> set (fst (handleSubmit id' response st))"
    using handleSubmit_submits [of st id' response] by blast
qed

text \<open>
  A title of blanks is refused; the form \<^verbatim>\<open>"  Hello "\<close>, \<^verbatim>\<open>"World "\<close>, tags
  \<^verbatim>\<open>"x, y,,z "\<close> on the route \<^verbatim>\<open>new\<close> is sent to \<open>createArticle\<close> trimmed.
\<close>

theorem handleSubmit_validation_witness:
  "handleSubmit (Some (js ''new'')) (Fulfils (js ''a7''))
     \<lparr>es_title = js ''   '', es_content = js ''World'', es_category = js '''',
      es_tags = js '''', es_loading = False\<rparr> =
   ([PreventDefault, ToastError (js ''Title and content are required'')],
    \<lparr>es_title = js ''   '', es_content = js ''World'', es_category = js '''',
      es_tags = js '''', es_loading = False\<rparr>) \<and>
   Call (CreateArticle \<lparr>ad_title = js ''Hello'', ad_content = js ''World'', ad_category = None,
                        ad_tags = [js ''x'', js ''y'', js ''z'']\<rparr>)
     \<in> set (fst (handleSubmit (Some (js ''new'')) (Fulfils (js ''a7''))
                  \<lparr>es_title = js ''  Hello '', es_content = js ''World '', es_category = js '' '',
                   es_tags = js ''x, y,,z '', es_loading = False\<rparr>))"
proof -
  let ?blank = "\<lparr>es_title = js ''   '', es_content = js ''World'', es_category = js '''',
      es_tags = js '''', es_loading = False\<rparr>"
  let ?ok = "\<lparr>es_title = js ''  Hello '', es_content = js ''World '', es_category = js '' '',
                   es_tags = js ''x, y,,z '', es_loading = False\<rparr>"
  have "trim (es_title ?blank) = []"
    by code_simp
  with handleSubmit_validation [of ?blank "Some (js ''new'')" "Fulfils (js ''a7'')"]
  have blank: "handleSubmit (Some (js ''new'')) (Fulfils (js ''a7'')) ?blank =
     ([PreventDefault, ToastError (js ''Title and content are required'')], ?blank)"
    by blast
  have "trim (es_title ?ok) \<noteq> [] \<and> trim (es_content ?ok) \<noteq> []"
    by code_simp
  with handleSubmit_validation [of ?ok "Some (js ''new'')" "Fulfils (js ''a7'')"]
  have "Call (if isEditMode (Some (js ''new''))
              then UpdateArticle (the (Some (js ''new''))) (articleData ?ok)
              else CreateArticle (articleData ?ok))
      \<in> set (fst (handleSubmit (Some (js ''new'')) (Fulfils (js ''a7'')) ?ok))"
    by blast
  moreover have "\<not> isEditMode (Some (js ''new''))"
    by (simp add: isEditMode_def)
  moreover have "articleData ?ok =
    \<lparr>ad_title = js ''Hello'', ad_content = js ''World'', ad_category = None,
     ad_tags = [js ''x'', js ''y'', js ''z'']\<rparr>"
    by code_simp
  ultimately show ?thesis
    using blank by simp
qed

subsection \<open>Submitting a comment\<close>

text \<open>
  C6. Without a signed-in user \<open>handleCommentSubmit\<close> shows an error toast and navigates to
  the sign-in page; with a user and a comment that is empty after trimming it shows an
  error toast; in both cases the state is unchanged and \<open>createComment\<close> is not called.
  Otherwise it calls \<open>createComment\<close> with the article id and the text as typed. When the
  call succeeds the submitter is told that the comment will appear after moderation and
  the text field is cleared. The comment list of the page is never changed by the
  handler: the new comment is not shown. (The comment itself is stored by the server; in
  the model of the server below it is pending, \<open>comment_create_Inr\<close>.)
\<close>

theorem handleCommentSubmit_spec:
  "(\<not> truthy user \<longrightarrow>
      handleCommentSubmit user id' response st =
        ([PreventDefault, ToastError (js ''Please sign in to comment''),
          Navigate (js ''/signin'')], st)) \<and>
   (truthy user \<and> trim (ds_newComment st) = [] \<longrightarrow>
      handleCommentSubmit user id' response st =
        ([PreventDefault, ToastError (js ''Comment cannot be empty'')], st)) \<and>
   (truthy user \<and> trim (ds_newComment st) \<noteq> [] \<longrightarrow>
      handleCommentSubmit user id' (Fulfils ()) st =
        ([PreventDefault, Call (CreateComment id' (ds_newComment st)),
          ToastSuccess (js ''Comment submitted! It will appear after moderation.'')],
         st\<lparr>ds_newComment := [], ds_submittingComment := False\<rparr>) \<and>
      handleCommentSubmit user id' Rejects st =
        ([PreventDefault, Call (CreateComment id' (ds_newComment st)),
          ConsoleError (js ''Failed to submit comment:''),
          ToastError (js ''Failed to submit comment'')],
         st\<lparr>ds_submittingComment := False\<rparr>)) \<and>
   (\<forall>c. Call c \<in> set (fst (handleCommentSubmit user id' response st)) \<longrightarrow>
      truthy user \<and> trim (ds_newComment st) \<noteq> [] \<and>
      c = CreateComment id' (ds_newComment st)) \<and>
   ds_comments (snd (handleCommentSubmit user id' response st)) = ds_comments st"
  by (auto simp add: handleCommentSubmit_def split: promise.splits if_splits)

text \<open>
  An anonymous visitor, a reader submitting blanks, and a reader submitting
  \<^verbatim>\<open>nice post\<close> on article \<^verbatim>\<open>a1\<close>.
\<close>

theorem handleCommentSubmit_spec_witness:
  "handleCommentSubmit JNull (js ''a1'') (Fulfils ())
     \<lparr>ds_article = None, ds_comments = [], ds_relatedArticles = [],
      ds_newComment = js ''nice post'', ds_loading = False, ds_liked = False,
      ds_submittingComment = False\<rparr> =
     ([PreventDefault, ToastError (js ''Please sign in to comment''), Navigate (js ''/signin'')],
      \<lparr>ds_article = None, ds_comments = [], ds_relatedArticles = [],
       ds_newComment = js ''nice post'', ds_loading = False, ds_liked = False,
       ds_submittingComment = False\<rparr>) \<and>
   handleCommentSubmit (JObj [(js ''role'', JStr (js ''reader''))]) (js ''a1'') (Fulfils ())
     \<lparr>ds_article = None, ds_comments = [], ds_relatedArticles = [],
      ds_newComment = js ''  '', ds_loading = False, ds_liked = False,
      ds_submittingComment = False\<rparr> =
     ([PreventDefault, ToastError (js ''Comment cannot be empty'')],
      \<lparr>ds_article = None, ds_comments = [], ds_relatedArticles = [],
       ds_newComment = js ''  '', ds_loading = False, ds_liked = False,
       ds_submittingComment = False\<rparr>) \<and>
   handleCommentSubmit (JObj [(js ''role'', JStr (js ''reader''))]) (js ''a1'') (Fulfils ())
     \<lparr>ds_article = None, ds_comments = [], ds_relatedArticles = [],
      ds_newComment = js ''nice post'', ds_loading = False, ds_liked = False,
      ds_submittingComment = False\<rparr> =
     ([PreventDefault, Call (CreateComment (js ''a1'') (js ''nice post'')),
       ToastSuccess (js ''Comment submitted! It will appear after moderation.'')],
      \<lparr>ds_article = None, ds_comments = [], ds_relatedArticles = [],
       ds_newComment = [], ds_loading = False, ds_liked = False,
       ds_submittingComment = False\<rparr>)"
proof -
  let ?reader = "JObj [(js ''role'', JStr (js ''reader''))]"
  let ?st = "\<lambda>text. \<lparr>ds_article = None, ds_comments = [], ds_relatedArticles = [],
      ds_newComment = text, ds_loading = False, ds_liked = False,
      ds_submittingComment = False\<rparr>"
  have anonymous: "\<not> truthy JNull"
    by simp
  have signed_in: "truthy ?reader"
    by simp
  have blank: "trim (ds_newComment (?st (js ''  ''))) = []"
    by code_simp
  have nonblank: "trim (ds_newComment (?st (js ''nice post''))) \<noteq> []"
    by code_simp
  from handleCommentSubmit_spec [of JNull "js ''a1''" "Fulfils ()" "?st (js ''nice post'')"]
    anonymous
  have 1: "handleCommentSubmit JNull (js ''a1'') (Fulfils ()) (?st (js ''nice post'')) =
     ([PreventDefault, ToastError (js ''Please sign in to comment''), Navigate (js ''/signin'')],
      ?st (js ''nice post''))"
    by blast
  from handleCommentSubmit_spec [of ?reader "js ''a1''" "Fulfils ()" "?st (js ''  '')"]
    signed_in blank
  have 2: "handleCommentSubmit ?reader (js ''a1'') (Fulfils ()) (?st (js ''  '')) =
     ([PreventDefault, ToastError (js ''Comment cannot be empty'')], ?st (js ''  ''))"
    by blast
  from handleCommentSubmit_spec [of ?reader "js ''a1''" "Fulfils ()" "?st (js ''nice post'')"]
    signed_in nonblank
  have 3: "handleCommentSubmit ?reader (js ''a1'') (Fulfils ()) (?st (js ''nice post'')) =
     ([PreventDefault, Call (CreateComment (js ''a1'') (ds_newComment (?st (js ''nice post'')))),
       ToastSuccess (js ''Comment submitted! It will appear after moderation.'')],
      (?st (js ''nice post''))\<lparr>ds_newComment := [], ds_submittingComment := False\<rparr>)"
    by blast
  from 1 2 3 show ?thesis
    by simp
qed

subsection \<open>The sign-in wrappers never reject\<close>

text \<open>
  C10, as the code has it. \<open>register\<close>, \<open>login\<close> and \<open>googleAuth\<close> never reject. When the
  request resolves they return the body of the response unchanged. When it fails they
  return an object with \<^verbatim>\<open>success: false\<close> and an \<^verbatim>\<open>error\<close> that is the \<^verbatim>\<open>detail\<close> of the
  server's answer when that is truthy, and the wrapper's fixed message otherwise. This
  error is a non-empty string whenever the \<^verbatim>\<open>detail\<close> is a string, is falsy or is missing.
\<close>

theorem auth_wrappers_never_reject:
  "register http email password name \<noteq> Rejects \<and>
   login http email password \<noteq> Rejects \<and>
   googleAuth http token \<noteq> Rejects \<and>
   (\<forall>d. http (register_request email password name) = Response d \<longrightarrow>
        register http email password name = Fulfils d) \<and>
   (\<forall>d. http (login_request email password) = Response d \<longrightarrow>
        login http email password = Fulfils d) \<and>
   (\<forall>d. http (googleAuth_request token) = Response d \<longrightarrow>
        googleAuth http token = Fulfils d) \<and>
   (\<forall>r. http (register_request email password name) = AxiosError r \<longrightarrow>
        register http email password name =
          Fulfils (JObj [(js ''success'', JBool False),
                         (js ''error'', if truthy (error_detail r) then error_detail r
                                        else JStr (js ''Registration failed''))])) \<and>
   (\<forall>r. http (login_request email password) = AxiosError r \<longrightarrow>
        login http email password =
          Fulfils (JObj [(js ''success'', JBool False),
                         (js ''error'', if truthy (error_detail r) then error_detail r
                                        else JStr (js ''Login failed''))])) \<and>
   (\<forall>r. http (googleAuth_request token) = AxiosError r \<longrightarrow>
        googleAuth http token =
          Fulfils (JObj [(js ''success'', JBool False),
                         (js ''error'', if truthy (error_detail r) then error_detail r
                                        else JStr (js ''Google auth failed''))])) \<and>
   (\<forall>r fallback.
        fallback \<in> {js ''Registration failed'', js ''Login failed'', js ''Google auth failed''} \<and>
        (\<not> truthy (error_detail r) \<or> (\<exists>s. error_detail r = JStr s)) \<longrightarrow>
        (\<exists>s. s \<noteq> [] \<and>
           (if truthy (error_detail r) then error_detail r else JStr fallback) = JStr s))"
proof (intro conjI allI impI)
  show "register http email password name \<noteq> Rejects"
    by (simp add: register_def split: axios_outcome.splits)
  show "login http email password \<noteq> Rejects"
    by (simp add: login_def split: axios_outcome.splits)
  show "googleAuth http token \<noteq> Rejects"
    by (simp add: googleAuth_def split: axios_outcome.splits)
next
  fix d
  show "http (register_request email password name) = Response d \<Longrightarrow>
        register http email password name = Fulfils d"
    by (simp add: register_def)
  show "http (login_request email password) = Response d \<Longrightarrow>
        login http email password = Fulfils d"
    by (simp add: login_def)
  show "http (googleAuth_request token) = Response d \<Longrightarrow>
        googleAuth http token = Fulfils d"
    by (simp add: googleAuth_def)
next
  fix r
  show "http (register_request email password name) = AxiosError r \<Longrightarrow>
        register http email password name =
          Fulfils (JObj [(js ''success'', JBool False),
                         (js ''error'', if truthy (error_detail r) then error_detail r
                                        else JStr (js ''Registration failed''))])"
    by (simp add: register_def or_else_def)
  show "http (login_request email password) = AxiosError r \<Longrightarrow>
        login http email password =
          Fulfils (JObj [(js ''success'', JBool False),
                         (js ''error'', if truthy (error_detail r) then error_detail r
                                        else JStr (js ''Login failed''))])"
    by (simp add: login_def or_else_def)
  show "http (googleAuth_request token) = AxiosError r \<Longrightarrow>
        googleAuth http token =
          Fulfils (JObj [(js ''success'', JBool False),
                         (js ''error'', if truthy (error_detail r) then error_detail r
                                        else JStr (js ''Google auth failed''))])"
    by (simp add: googleAuth_def or_else_def)
next
  fix r fallback
  assume "fallback \<in> {js ''Registration failed'', js ''Login failed'', js ''Google auth failed''} \<and>
        (\<not> truthy (error_detail r) \<or> (\<exists>s. error_detail r = JStr s))"
  then show "\<exists>s. s \<noteq> [] \<and>
           (if truthy (error_detail r) then error_detail r else JStr fallback) = JStr s"
    by (auto simp add: js_def)
qed

text \<open>
  No answer at all gives the fixed message; a refused sign-in gives the server's detail; a
  successful answer is passed through.
\<close>

theorem auth_wrappers_never_reject_witness:
  "register (answers (AxiosError None)) (JStr (js ''ann@example.org'')) (JStr (js ''secret''))
     (JStr (js ''Ann'')) =
     Fulfils (JObj [(js ''success'', JBool False),
                    (js ''error'', JStr (js ''Registration failed''))]) \<and>
   login (answers (AxiosError (Some (JObj [(js ''detail'', JStr (js ''Invalid credentials''))]))))
     (JStr (js ''ann@example.org'')) (JStr (js ''wrong'')) =
     Fulfils (JObj [(js ''success'', JBool False),
                    (js ''error'', JStr (js ''Invalid credentials''))]) \<and>
   googleAuth (answers (Response (JObj [(js ''success'', JBool True)]))) (JStr (js ''tok'')) =
     Fulfils (JObj [(js ''success'', JBool True)])"
proof -
  let ?none = "answers (AxiosError None)"
  let ?body = "JObj [(js ''detail'', JStr (js ''Invalid credentials''))]"
  let ?denied = "answers (AxiosError (Some ?body))"
  let ?ok = "answers (Response (JObj [(js ''success'', JBool True)]))"
  have d1: "error_detail None = JUndefined"
    by (simp add: error_detail_def)
  have d2: "error_detail (Some ?body) = JStr (js ''Invalid credentials'')"
    by (simp add: error_detail_def)
  have t2: "js ''Invalid credentials'' \<noteq> []"
    by (simp add: js_def)
  from auth_wrappers_never_reject
    [of ?none "JStr (js ''ann@example.org'')" "JStr (js ''secret'')" "JStr (js ''Ann'')"]
  have "register ?none (JStr (js ''ann@example.org'')) (JStr (js ''secret'')) (JStr (js ''Ann'')) =
     Fulfils (JObj [(js ''success'', JBool False),
                    (js ''error'', if truthy (error_detail None) then error_detail None
                                   else JStr (js ''Registration failed''))])"
    by (simp add: answers_def)
  then have 1: "register ?none (JStr (js ''ann@example.org'')) (JStr (js ''secret''))
      (JStr (js ''Ann'')) =
     Fulfils (JObj [(js ''success'', JBool False),
                    (js ''error'', JStr (js ''Registration failed''))])"
    by (simp add: d1)
  from auth_wrappers_never_reject
    [of ?denied "JStr (js ''ann@example.org'')" "JStr (js ''wrong'')"]
  have "login ?denied (JStr (js ''ann@example.org'')) (JStr (js ''wrong'')) =
     Fulfils (JObj [(js ''success'', JBool False),
                    (js ''error'', if truthy (error_detail (Some ?body))
                                   then error_detail (Some ?body)
                                   else JStr (js ''Login failed''))])"
    by (simp add: answers_def)
  then have 2: "login ?denied (JStr (js ''ann@example.org'')) (JStr (js ''wrong'')) =
     Fulfils (JObj [(js ''success'', JBool False),
                    (js ''error'', JStr (js ''Invalid credentials''))])"
    by (simp add: d2 t2)
  from auth_wrappers_never_reject [of ?ok _ _ _ "JStr (js ''tok'')"]
  have 3: "googleAuth ?ok (JStr (js ''tok'')) = Fulfils (JObj [(js ''success'', JBool True)])"
    by (simp add: answers_def)
  from 1 2 3 show ?thesis
    by simp
qed

text \<open>
  The error need not be a string, as C10 states it: the wrapper passes on whatever truthy
  \<^verbatim>\<open>detail\<close> the server sent. A request that fails validation is answered with a list of
  findings as its \<^verbatim>\<open>detail\<close>, and \<open>register\<close> returns that list as the \<^verbatim>\<open>error\<close>.
\<close>

theorem auth_error_string_counterexample:
  "register
     (answers (AxiosError (Some (JObj [(js ''detail'',
        JArr [JObj [(js ''msg'', JStr (js ''value is not a valid email address''))]])]))))
     (JStr (js ''ann'')) (JStr (js ''secret'')) (JStr (js ''Ann'')) =
   Fulfils (JObj [(js ''success'', JBool False),
                  (js ''error'',
                   JArr [JObj [(js ''msg'', JStr (js ''value is not a valid email address''))]])])"
  by (simp add: register_def answers_def error_detail_def or_else_def)

section \<open>Properties of the modelled server\<close>

subsection \<open>Articles in the store\<close>

lemma find_change:
  assumes "\<And>a. art_id (f a) = art_id a"
  shows "find (\<lambda>a. art_id a = aid) (map (\<lambda>a. if art_id a = aid then f a else a) xs) =
         map_option f (find (\<lambda>a. art_id a = aid) xs)"
  using assms by (induction xs) simp_all

lemma find_article_change:
  assumes "\<And>a. art_id (f a) = art_id a"
  shows "find_article aid (change_article aid f s) = map_option f (find_article aid s)"
  using find_change [of f aid "articles s", OF assms]
  by (simp add: find_article_def change_article_def)

lemma find_article_likes [simp]:
  "find_article aid (s\<lparr>likes := l\<rparr>) = find_article aid s"
  by (simp add: find_article_def)

lemma map_change_back:
  assumes "\<And>a. g (f a) = a" and "\<And>a. art_id (f a) = art_id a"
  shows "map (\<lambda>a. if art_id a = aid then g a else a)
           (map (\<lambda>a. if art_id a = aid then f a else a) xs) = xs"
  using assms by (induction xs) simp_all

lemma change_article_back:
  assumes "\<And>a. g (f a) = a" and "\<And>a. art_id (f a) = art_id a"
  shows "change_article aid g (change_article aid f s) = s"
  using map_change_back [of g f aid "articles s", OF assms]
  by (simp add: change_article_def)

lemma likes_change_article [simp]: "likes (change_article aid f s) = likes s"
  by (simp add: change_article_def)

lemma change_article_likes:
  "change_article aid f (s\<lparr>likes := l\<rparr>) = (change_article aid f s)\<lparr>likes := l\<rparr>"
  by (simp add: change_article_def)

lemma toggleLike_result:
  assumes "find_article aid s = Some a"
  shows "toggleLike (Actor uid name r) aid s =
     (if (aid, uid) \<in> likes s then
        Inr (False, change_article aid (\<lambda>a. a\<lparr>art_likes_count := art_likes_count a - 1\<rparr>)
                      (s\<lparr>likes := likes s - {(aid, uid)}\<rparr>))
      else
        Inr (True, change_article aid (\<lambda>a. a\<lparr>art_likes_count := art_likes_count a + 1\<rparr>)
                     (s\<lparr>likes := insert (aid, uid) (likes s)\<rparr>)))"
  using assms by (cases r) (simp_all add: toggleLike_def)

lemma toggleLike_Inr:
  assumes "toggleLike who aid s = Inr (l1, s1)"
  obtains uid name r a where "who = Actor uid name r" and "find_article aid s = Some a"
  using assms
  by (auto simp add: toggleLike_def split: actor.splits if_splits option.splits)

lemma toggleLike_undo:
  assumes "toggleLike (Actor uid name r) aid s = Inr (l1, s1)"
  shows "l1 = ((aid, uid) \<notin> likes s) \<and> toggleLike (Actor uid name r) aid s1 = Inr (\<not> l1, s)"
proof -
  from assms obtain a where a: "find_article aid s = Some a"
    by (auto elim: toggleLike_Inr)
  show ?thesis
  proof (cases "(aid, uid) \<in> likes s")
    case True
    let ?dec = "\<lambda>a. a\<lparr>art_likes_count := art_likes_count a - 1\<rparr>"
    let ?inc = "\<lambda>a. a\<lparr>art_likes_count := art_likes_count a + 1\<rparr>"
    from True a assms have l1: "l1 = False"
      and s1: "s1 = change_article aid ?dec (s\<lparr>likes := likes s - {(aid, uid)}\<rparr>)"
      by (simp_all add: toggleLike_result)
    have f1: "find_article aid s1 = Some (?dec a)"
      using a by (simp add: s1 find_article_change)
    have notin: "(aid, uid) \<notin> likes s1"
      by (simp add: s1)
    have "change_article aid ?inc (s1\<lparr>likes := insert (aid, uid) (likes s1)\<rparr>) = s"
      using True
      by (simp add: s1 change_article_likes change_article_back insert_absorb)
    with f1 notin l1 True show ?thesis
      by (simp add: toggleLike_result)
  next
    case False
    let ?dec = "\<lambda>a. a\<lparr>art_likes_count := art_likes_count a - 1\<rparr>"
    let ?inc = "\<lambda>a. a\<lparr>art_likes_count := art_likes_count a + 1\<rparr>"
    from False a assms have l1: "l1 = True"
      and s1: "s1 = change_article aid ?inc (s\<lparr>likes := insert (aid, uid) (likes s)\<rparr>)"
      by (simp_all add: toggleLike_result)
    have f1: "find_article aid s1 = Some (?inc a)"
      using a by (simp add: s1 find_article_change)
    have isin: "(aid, uid) \<in> likes s1"
      by (simp add: s1)
    have "change_article aid ?dec (s1\<lparr>likes := likes s1 - {(aid, uid)}\<rparr>) = s"
      using False
      by (simp add: s1 change_article_likes change_article_back)
    with f1 isin l1 False show ?thesis
      by (simp add: toggleLike_result)
  qed
qed

subsection \<open>Toggling a like\<close>

lemma safe_plus_one:
  assumes "\<bar>n\<bar> < 2 ^ 53"
  shows "js_add (Num n) (Num 1) = Num (n + 1)"
proof -
  from assms have "\<bar>n + 1\<bar> \<le> 2 ^ 53"
    by simp
  then show ?thesis
    by (simp add: round_double_def)
qed

lemma safe_minus_one:
  assumes "\<bar>n\<bar> \<le> 2 ^ 53" and "- (2 ^ 53) < n"
  shows "js_subtract (Num n) (Num 1) = Num (n - 1)"
proof -
  from assms have "\<bar>n - 1\<bar> \<le> 2 ^ 53"
    by simp
  then show ?thesis
    by (simp add: round_double_def js_subtract_def)
qed

lemma like_update_safe:
  assumes count: "ca_likes_count article = Some (Num n)" and safe: "\<bar>n\<bar> < 2 ^ 53"
  shows "ca_likes_count (like_update True article) = Some (Num (n + 1))"
    and "ca_likes_count (like_update False article) = Some (Num (n - 1))"
    and "like_update False (like_update True article) = article"
proof -
  from safe have up: "js_add (Num n) (Num 1) = Num (n + 1)"
    by (rule safe_plus_one)
  from safe have down: "js_subtract (Num n) (Num 1) = Num (n - 1)"
    by (intro safe_minus_one) simp_all
  from safe have undo: "js_subtract (Num (n + 1)) (Num 1) = Num n"
    using safe_minus_one [of "n + 1"] by simp
  from count up show "ca_likes_count (like_update True article) = Some (Num (n + 1))"
    by (simp add: like_update_def to_number_def)
  from count down show "ca_likes_count (like_update False article) = Some (Num (n - 1))"
    by (simp add: like_update_def to_number_def)
  have "like_update False (like_update True article) =
        article\<lparr>ca_likes_count := Some (Num n)\<rparr>"
    using count up undo by (simp add: like_update_def to_number_def)
  also have "\<dots> = article"
    using count by (cases article) simp
  finally show "like_update False (like_update True article) = article" .
qed

lemma like_update_missing:
  assumes "ca_likes_count article = None"
  shows "ca_likes_count (like_update liked article) = Some NotANumber"
  using assms by (simp add: like_update_def to_number_def js_subtract_def)

lemma handleLike_article:
  assumes "truthy user"
  shows "ds_article (snd (handleLike user id' (Fulfils liked) st)) =
         map_option (like_update liked) (ds_article st)"
  using assms by (simp add: handleLike_def)

lemma handleLike_twice:
  assumes "truthy user" and "ds_article st = Some article"
    and "ca_likes_count article = Some (Num n)" and "\<bar>n\<bar> < 2 ^ 53"
  shows "ds_article (snd (handleLike user id' (Fulfils False)
                       (snd (handleLike user id' (Fulfils True) st)))) = Some article"
  using assms by (simp add: handleLike_article like_update_safe(3))

text \<open>
  C2, as the model has it. For an authenticated actor and an existing article
  \<open>toggleLike\<close> succeeds, and it returns \<^verbatim>\<open>liked=true\<close> exactly when the actor did not like the
  article before. A second call then returns the opposite value and gives back the very
  store the first call started from, \<^verbatim>\<open>likes_count\<close> included. So from a store in which
  the actor does not like the article, two calls in a row return true and then false.
  On the client, \<open>handleLike\<close> applies the update \<open>like_update\<close> to the article of the
  page. For a \<^verbatim>\<open>likes_count\<close> that is an integer of magnitude below \<open>2 ^ 53\<close> the update adds
  exactly 1 for \<^verbatim>\<open>liked=true\<close> and subtracts exactly 1 for \<^verbatim>\<open>liked=false\<close>, and the first
  followed by the second gives the article back, also as \<open>handleLike\<close> applies them to
  the state of the page.
\<close>

theorem toggle_like_twice:
  "(\<forall>a. find_article aid s = Some a \<longrightarrow>
        (\<exists>s1. toggleLike (Actor uid name r) aid s = Inr ((aid, uid) \<notin> likes s, s1))) \<and>
   (\<forall>l1 s1. toggleLike (Actor uid name r) aid s = Inr (l1, s1) \<longrightarrow>
        l1 = ((aid, uid) \<notin> likes s) \<and>
        toggleLike (Actor uid name r) aid s1 = Inr (\<not> l1, s)) \<and>
   (\<forall>a. find_article aid s = Some a \<and> (aid, uid) \<notin> likes s \<longrightarrow>
        (\<exists>s1. toggleLike (Actor uid name r) aid s = Inr (True, s1) \<and>
              toggleLike (Actor uid name r) aid s1 = Inr (False, s))) \<and>
   (ca_likes_count article = Some (Num n) \<and> \<bar>n\<bar> < 2 ^ 53 \<longrightarrow>
      ca_likes_count (like_update True article) = Some (Num (n + 1)) \<and>
      ca_likes_count (like_update False article) = Some (Num (n - 1)) \<and>
      like_update False (like_update True article) = article) \<and>
   (truthy user \<longrightarrow>
      ds_article (snd (handleLike user id' (Fulfils True) st)) =
        map_option (like_update True) (ds_article st) \<and>
      ds_article (snd (handleLike user id' (Fulfils False) st)) =
        map_option (like_update False) (ds_article st)) \<and>
   (truthy user \<and> ds_article st = Some article \<and>
    ca_likes_count article = Some (Num n) \<and> \<bar>n\<bar> < 2 ^ 53 \<longrightarrow>
      ds_article (snd (handleLike user id' (Fulfils False)
                    (snd (handleLike user id' (Fulfils True) st)))) = Some article)"
proof (intro conjI allI impI)
  fix a
  assume "find_article aid s = Some a"
  then show "\<exists>s1. toggleLike (Actor uid name r) aid s = Inr ((aid, uid) \<notin> likes s, s1)"
    by (simp add: toggleLike_result)
next
  fix l1 s1
  assume "toggleLike (Actor uid name r) aid s = Inr (l1, s1)"
  from toggleLike_undo [OF this]
  show "l1 = ((aid, uid) \<notin> likes s)"
    and "toggleLike (Actor uid name r) aid s1 = Inr (\<not> l1, s)"
    by simp_all
next
  fix a
  assume a: "find_article aid s = Some a \<and> (aid, uid) \<notin> likes s"
  then obtain s1 where s1: "toggleLike (Actor uid name r) aid s = Inr (True, s1)"
    by (simp add: toggleLike_result)
  from toggleLike_undo [OF s1] have "toggleLike (Actor uid name r) aid s1 = Inr (False, s)"
    by simp
  with s1 show "\<exists>s1. toggleLike (Actor uid name r) aid s = Inr (True, s1) \<and>
              toggleLike (Actor uid name r) aid s1 = Inr (False, s)"
    by blast
next
  assume h: "ca_likes_count article = Some (Num n) \<and> \<bar>n\<bar> < 2 ^ 53"
  note safe = like_update_safe [OF conjunct1 [OF h] conjunct2 [OF h]]
  show "ca_likes_count (like_update True article) = Some (Num (n + 1))"
    by (rule safe(1))
  show "ca_likes_count (like_update False article) = Some (Num (n - 1))"
    by (rule safe(2))
  show "like_update False (like_update True article) = article"
    by (rule safe(3))
next
  assume u: "truthy user"
  then show "ds_article (snd (handleLike user id' (Fulfils True) st)) =
        map_option (like_update True) (ds_article st)"
    by (rule handleLike_article)
  from u show "ds_article (snd (handleLike user id' (Fulfils False) st)) =
        map_option (like_update False) (ds_article st)"
    by (rule handleLike_article)
next
  assume "truthy user \<and> ds_article st = Some article \<and>
    ca_likes_count article = Some (Num n) \<and> \<bar>n\<bar> < 2 ^ 53"
  then show "ds_article (snd (handleLike user id' (Fulfils False)
                    (snd (handleLike user id' (Fulfils True) st)))) = Some article"
    using handleLike_twice [of user st article n id'] by blast
qed

text \<open>
  C2 as stated fails where the actor already likes the article: user 7 likes article 0,
  which has one like. The two calls return false and then true. On the client, adding
  exactly 1 fails where doubles round: a \<^verbatim>\<open>likes_count\<close> of \<open>2 ^ 53\<close>, which is
  9007199254740992, is still that after the update for \<^verbatim>\<open>liked=true\<close>, and one less after
  the update for \<^verbatim>\<open>liked=false\<close> that follows.
\<close>

theorem toggle_like_liked_counterexample:
  "toggleLike (Actor 7 (js ''Ann'') Reader) 0
     \<lparr>articles = [sample_article 0 1 Published 1 10], likes = {(0, 7)}, comments = [],
      next_id = 1\<rparr> =
     Inr (False, \<lparr>articles = [sample_article 0 1 Published 0 10], likes = {}, comments = [],
                  next_id = 1\<rparr>) \<and>
   toggleLike (Actor 7 (js ''Ann'') Reader) 0
     \<lparr>articles = [sample_article 0 1 Published 0 10], likes = {}, comments = [],
      next_id = 1\<rparr> =
     Inr (True, \<lparr>articles = [sample_article 0 1 Published 1 10], likes = {(0, 7)},
                 comments = [], next_id = 1\<rparr>) \<and>
   ca_likes_count (like_update True
       (sample_client_article (js ''a1'') (js ''published'') 9007199254740992)) =
     Some (Num 9007199254740992) \<and>
   ca_likes_count (like_update False (like_update True
       (sample_client_article (js ''a1'') (js ''published'') 9007199254740992))) =
     Some (Num 9007199254740991)"
proof -
  have server:
    "toggleLike (Actor 7 (js ''Ann'') Reader) 0
       \<lparr>articles = [sample_article 0 1 Published 1 10], likes = {(0, 7)}, comments = [],
        next_id = 1\<rparr> =
       Inr (False, \<lparr>articles = [sample_article 0 1 Published 0 10], likes = {},
                    comments = [], next_id = 1\<rparr>)"
    "toggleLike (Actor 7 (js ''Ann'') Reader) 0
       \<lparr>articles = [sample_article 0 1 Published 0 10], likes = {}, comments = [],
        next_id = 1\<rparr> =
       Inr (True, \<lparr>articles = [sample_article 0 1 Published 1 10], likes = {(0, 7)},
                   comments = [], next_id = 1\<rparr>)"
    by (simp_all add: toggleLike_def find_article_def change_article_def sample_article_def)
  have up: "round_double 9007199254740993 = Num 9007199254740992"
    by code_simp
  have down: "js_subtract (Num 9007199254740992) (Num 1) = Num 9007199254740991"
    by code_simp
  have client:
    "ca_likes_count (like_update True
         (sample_client_article (js ''a1'') (js ''published'') 9007199254740992)) =
       Some (Num 9007199254740992)"
    "ca_likes_count (like_update False (like_update True
         (sample_client_article (js ''a1'') (js ''published'') 9007199254740992))) =
       Some (Num 9007199254740991)"
    by (simp_all add: like_update_def to_number_def sample_client_article_def up down)
  from server client show ?thesis
    by simp
qed

text \<open>
  User 7 does not like article 0 yet: the two calls return true and then false, and the
  store is as before; on the client a count of 4 is 4 again after both updates.
\<close>

theorem toggle_like_twice_witness:
  "toggleLike (Actor 7 (js ''Ann'') Reader) 0
     \<lparr>articles = [sample_article 0 1 Published 0 10], likes = {}, comments = [],
      next_id = 1\<rparr> =
     Inr (True, \<lparr>articles = [sample_article 0 1 Published 1 10], likes = {(0, 7)},
                 comments = [], next_id = 1\<rparr>) \<and>
   toggleLike (Actor 7 (js ''Ann'') Reader) 0
     \<lparr>articles = [sample_article 0 1 Published 1 10], likes = {(0, 7)}, comments = [],
      next_id = 1\<rparr> =
     Inr (False, \<lparr>articles = [sample_article 0 1 Published 0 10], likes = {}, comments = [],
                  next_id = 1\<rparr>) \<and>
   ca_likes_count (like_update True (sample_client_article (js ''a1'') (js ''published'') 4)) =
     Some (Num 5) \<and>
   like_update False (like_update True (sample_client_article (js ''a1'') (js ''published'') 4)) =
     sample_client_article (js ''a1'') (js ''published'') 4"
proof -
  let ?s = "\<lparr>articles = [sample_article 0 1 Published 0 10], likes = {}, comments = [],
      next_id = 1\<rparr>"
  let ?s1 = "\<lparr>articles = [sample_article 0 1 Published 1 10], likes = {(0, 7)},
                 comments = [], next_id = 1\<rparr>"
  let ?who = "Actor 7 (js ''Ann'') Reader"
  let ?article = "sample_client_article (js ''a1'') (js ''published'') 4"
  have first: "toggleLike ?who 0 ?s = Inr (True, ?s1)"
    by (simp add: toggleLike_def find_article_def change_article_def sample_article_def)
  note inst = toggle_like_twice [where aid = 0 and s = ?s and uid = 7 and name = "js ''Ann''"
      and r = Reader and article = ?article and n = 4]
  from inst have "toggleLike ?who 0 ?s = Inr (True, ?s1) \<longrightarrow>
        toggleLike ?who 0 ?s1 = Inr (\<not> True, ?s)"
    by blast
  with first have second: "toggleLike ?who 0 ?s1 = Inr (False, ?s)"
    by simp
  have count: "ca_likes_count ?article = Some (Num 4)"
    by (simp add: sample_client_article_def)
  have safe: "\<bar>4 :: int\<bar> < 2 ^ 53"
    by simp
  from inst count safe
  have "ca_likes_count (like_update True ?article) = Some (Num (4 + 1)) \<and>
        like_update False (like_update True ?article) = ?article"
    by blast
  with first second show ?thesis
    by simp
qed

subsection \<open>The selectors return published articles only\<close>

lemma set_published: "set (published s) = {a \<in> set (articles s). art_status a = Published}"
  by (auto simp add: published_def)

lemma trending_published: "a \<in> set (trending limit s) \<Longrightarrow> art_status a = Published"
  by (auto simp add: trending_def set_published dest: in_set_takeD)

lemma featured_published: "a \<in> set (featured limit s) \<Longrightarrow> art_status a = Published"
  by (auto simp add: featured_def set_published dest: in_set_takeD)

lemma listPublished_published: "a \<in> set (listPublished filters s) \<Longrightarrow> art_status a = Published"
  by (auto simp add: listPublished_def set_published)

lemma loadArticles_calls_status:
  "GetArticles ps \<in> set loadArticles_calls \<Longrightarrow> ps = [(js ''status'', JStr (js ''published''))]"
  by (simp add: loadArticles_calls_def)

text \<open>
  C7. Every article that \<open>trending\<close>, \<open>featured\<close> or \<open>listPublished\<close> returns is published;
  the selectors take no caller, so this holds whoever asks. The home page asks the
  article list for \<^verbatim>\<open>status: 'published'\<close> and for nothing else.
\<close>

theorem selectors_never_draft:
  "(\<forall>a \<in> set (trending limit s). art_status a = Published) \<and>
   (\<forall>a \<in> set (featured limit s). art_status a = Published) \<and>
   (\<forall>a \<in> set (listPublished filters s). art_status a = Published) \<and>
   (\<forall>ps. Call (GetArticles ps) \<in> set (fst (loadArticles r_trending r_featured r_recent st)) \<longrightarrow>
      ps = [(js ''status'', JStr (js ''published''))]) \<and>
   Call (GetArticles [(js ''status'', JStr (js ''published''))])
     \<in> set (fst (loadArticles r_trending r_featured r_recent st)) \<and>
   req_params (api_request token (GetArticles [(js ''status'', JStr (js ''published''))])) =
     [(js ''status'', JStr (js ''published''))]"
proof (intro conjI ballI allI impI)
  show "art_status a = Published" if "a \<in> set (trending limit s)" for a
    using that by (rule trending_published)
  show "art_status a = Published" if "a \<in> set (featured limit s)" for a
    using that by (rule featured_published)
  show "art_status a = Published" if "a \<in> set (listPublished filters s)" for a
    using that by (rule listPublished_published)
next
  fix ps
  assume "Call (GetArticles ps) \<in> set (fst (loadArticles r_trending r_featured r_recent st))"
  then have "GetArticles ps \<in> set loadArticles_calls"
    by (auto simp add: loadArticles_def split: promise.splits)
  then show "ps = [(js ''status'', JStr (js ''published''))]"
    by (rule loadArticles_calls_status)
next
  show "Call (GetArticles [(js ''status'', JStr (js ''published''))])
     \<in> set (fst (loadArticles r_trending r_featured r_recent st))"
    by (simp add: loadArticles_def loadArticles_calls_def split: promise.splits)
  show "req_params (api_request token (GetArticles [(js ''status'', JStr (js ''published''))])) =
     [(js ''status'', JStr (js ''published''))]"
    by simp
qed

text \<open>
  A store with two published articles and a draft that has the most likes: the draft is
  in none of the listings.
\<close>

theorem selectors_never_draft_witness:
  "trending 6 \<lparr>articles = [sample_article 0 1 Published 3 20, sample_article 1 1 Draft 9 30,
                             sample_article 2 1 Published 5 10],
                 likes = {}, comments = [], next_id = 3\<rparr> =
     [sample_article 2 1 Published 5 10, sample_article 0 1 Published 3 20] \<and>
   art_status (sample_article 2 1 Published 5 10) = Published \<and>
   art_status (sample_article 0 1 Published 3 20) = Published \<and>
   listPublished \<lparr>flt_category = None, flt_author_id = None, flt_tag = None\<rparr>
     \<lparr>articles = [sample_article 0 1 Published 3 20, sample_article 1 1 Draft 9 30,
                  sample_article 2 1 Published 5 10],
      likes = {}, comments = [], next_id = 3\<rparr> =
     [sample_article 0 1 Published 3 20, sample_article 2 1 Published 5 10] \<and>
   featured 6 \<lparr>articles = [sample_article 0 1 Published 3 20, sample_article 1 1 Draft 9 30,
                             sample_article 2 1 Published 5 10],
                 likes = {}, comments = [], next_id = 3\<rparr> = []"
proof -
  let ?s = "\<lparr>articles = [sample_article 0 1 Published 3 20, sample_article 1 1 Draft 9 30,
                             sample_article 2 1 Published 5 10],
                 likes = {}, comments = [], next_id = 3\<rparr>"
  have t: "trending 6 ?s = [sample_article 2 1 Published 5 10, sample_article 0 1 Published 3 20]"
    by (simp add: trending_def published_def sample_article_def)
  have l: "listPublished \<lparr>flt_category = None, flt_author_id = None, flt_tag = None\<rparr> ?s =
     [sample_article 0 1 Published 3 20, sample_article 2 1 Published 5 10]"
    by (simp add: listPublished_def published_def sample_article_def)
  have f: "featured 6 ?s = []"
    by (simp add: featured_def published_def sample_article_def)
  from selectors_never_draft [of 6 ?s] t
  have "art_status (sample_article 2 1 Published 5 10) = Published \<and>
        art_status (sample_article 0 1 Published 3 20) = Published"
    by simp
  with t l f show ?thesis
    by simp
qed

subsection \<open>The trending order\<close>

lemma ranks_before_key:
  "ranks_before a b \<longleftrightarrow>
     (- art_likes_count a, - art_created_at a) \<le> (- art_likes_count b, - art_created_at b)"
  by (auto simp add: ranks_before_def)

lemma sorted_wrt_ranking:
  "sorted_wrt ranks_before
     (sort_key (\<lambda>a. (- art_likes_count a, - art_created_at a)) xs)"
proof -
  have "sorted (map (\<lambda>a. (- art_likes_count a, - art_created_at a))
                  (sort_key (\<lambda>a. (- art_likes_count a, - art_created_at a)) xs))"
    by (rule sorted_sort_key)
  then show ?thesis
    by (simp add: sorted_map ranks_before_key [abs_def])
qed

lemma trending_sorted: "sorted_wrt ranks_before (trending limit s)"
  unfolding trending_def by (rule sorted_wrt_take) (rule sorted_wrt_ranking)

lemma trending_prefix:
  "\<exists>rest. mset (trending limit s @ rest) = mset (published s) \<and>
          sorted_wrt ranks_before (trending limit s @ rest)"
proof -
  let ?all = "sort_key (\<lambda>a. (- art_likes_count a, - art_created_at a)) (published s)"
  have "trending limit s @ drop limit ?all = ?all"
    by (simp add: trending_def)
  moreover have "mset ?all = mset (published s)"
    by simp
  moreover have "sorted_wrt ranks_before ?all"
    by (rule sorted_wrt_ranking)
  ultimately show ?thesis
    by metis
qed

lemma trending_length: "length (trending limit s) = min limit (length (published s))"
  by (simp add: trending_def min.commute)

lemma trending_example:
  "trending 3 \<lparr>articles = [sample_article 0 1 Published 5 t1, sample_article 1 1 Published 3 t2,
                             sample_article 2 1 Published 3 t3, sample_article 3 1 Published 1 t4],
                 likes = {}, comments = [], next_id = 4\<rparr> =
     (if t2 < t3
      then [sample_article 0 1 Published 5 t1, sample_article 2 1 Published 3 t3,
            sample_article 1 1 Published 3 t2]
      else [sample_article 0 1 Published 5 t1, sample_article 1 1 Published 3 t2,
            sample_article 2 1 Published 3 t3])"
  by (simp add: trending_def published_def sample_article_def)

text \<open>
  C8. \<open>trending limit\<close> is in ranking order (more likes first, among equal likes the
  newer first), has \<open>limit\<close> entries or all published articles if there are fewer, and is
  the beginning of a ranking of all published articles: some rest completes it to a
  rearrangement of the published articles that is in ranking order as a whole. For four
  published articles with 5, 3, 3 and 1 likes, created at any times of which those of the
  two articles with 3 likes differ, \<open>trending 3\<close> is the article with 5 likes followed by
  the two with 3 likes, the newer before the older. The client's \<open>getTrendingArticles\<close>
  passes its limit on as the \<^verbatim>\<open>limit\<close> parameter, 10 when none is given.
\<close>

theorem trending_ranking:
  "sorted_wrt ranks_before (trending limit s) \<and>
   length (trending limit s) = min limit (length (published s)) \<and>
   (\<exists>rest. mset (trending limit s @ rest) = mset (published s) \<and>
           sorted_wrt ranks_before (trending limit s @ rest)) \<and>
   (t2 \<noteq> t3 \<longrightarrow>
      trending 3 \<lparr>articles = [sample_article 0 1 Published 5 t1,
                               sample_article 1 1 Published 3 t2,
                               sample_article 2 1 Published 3 t3,
                               sample_article 3 1 Published 1 t4],
                   likes = {}, comments = [], next_id = 4\<rparr> =
        (if t2 < t3
         then [sample_article 0 1 Published 5 t1, sample_article 2 1 Published 3 t3,
               sample_article 1 1 Published 3 t2]
         else [sample_article 0 1 Published 5 t1, sample_article 1 1 Published 3 t2,
               sample_article 2 1 Published 3 t3])) \<and>
   req_params (api_request token (GetTrendingArticles (Some n))) = [(js ''limit'', JNum n)] \<and>
   req_params (api_request token (GetTrendingArticles None)) = [(js ''limit'', JNum 10)]"
  using trending_sorted [of limit s] trending_length [of limit s] trending_prefix [of limit s]
    trending_example [of t1 t2 t3 t4]
  by simp

text \<open>
  Likes 5, 3, 3, 1 created at 10, 20, 30, 40; and a store in another order with a draft
  that has the most likes.
\<close>

theorem trending_ranking_witness:
  "trending 3 \<lparr>articles = [sample_article 0 1 Published 5 10, sample_article 1 1 Published 3 20,
                             sample_article 2 1 Published 3 30, sample_article 3 1 Published 1 40],
                 likes = {}, comments = [], next_id = 4\<rparr> =
     [sample_article 0 1 Published 5 10, sample_article 2 1 Published 3 30,
      sample_article 1 1 Published 3 20] \<and>
   trending 2 \<lparr>articles = [sample_article 3 1 Published 1 40, sample_article 2 1 Published 3 30,
                             sample_article 4 1 Draft 8 50, sample_article 0 1 Published 5 10],
                 likes = {}, comments = [], next_id = 5\<rparr> =
     [sample_article 0 1 Published 5 10, sample_article 2 1 Published 3 30]"
proof -
  have "(20 :: int) \<noteq> 30"
    by simp
  with trending_ranking [of 3 _ 20 30 10 40]
  have "trending 3 \<lparr>articles = [sample_article 0 1 Published 5 10,
                                  sample_article 1 1 Published 3 20,
                                  sample_article 2 1 Published 3 30,
                                  sample_article 3 1 Published 1 40],
                      likes = {}, comments = [], next_id = 4\<rparr> =
     [sample_article 0 1 Published 5 10, sample_article 2 1 Published 3 30,
      sample_article 1 1 Published 3 20]"
    by simp
  moreover have
    "trending 2 \<lparr>articles = [sample_article 3 1 Published 1 40, sample_article 2 1 Published 3 30,
                               sample_article 4 1 Draft 8 50, sample_article 0 1 Published 5 10],
                   likes = {}, comments = [], next_id = 5\<rparr> =
     [sample_article 0 1 Published 5 10, sample_article 2 1 Published 3 30]"
    by (simp add: trending_def published_def sample_article_def)
  ultimately show ?thesis
    by simp
qed

subsection \<open>What a successful operation does to the store\<close>

lemma find_article_Some:
  "find_article aid s = Some a \<Longrightarrow> a \<in> set (articles s) \<and> art_id a = aid"
  by (auto simp add: find_article_def find_Some_iff)

lemma find_comment_Some:
  "find_comment cid s = Some c \<Longrightarrow> c \<in> set (comments s) \<and> com_id c = cid"
  by (auto simp add: find_comment_def find_Some_iff)

lemma next_id_change_article [simp]: "next_id (change_article aid f s) = next_id s"
  by (simp add: change_article_def)

lemma comments_change_article [simp]: "comments (change_article aid f s) = comments s"
  by (simp add: change_article_def)

lemma next_id_change_comment [simp]: "next_id (change_comment cid f s) = next_id s"
  by (simp add: change_comment_def)

lemma articles_change_comment [simp]: "articles (change_comment cid f s) = articles s"
  by (simp add: change_comment_def)

lemma article_create_Inr:
  assumes "article_create who flds now s = Inr (a, s')"
  shows "articles s' = articles s @ [a] \<and> art_id a = next_id s \<and> comments s' = comments s \<and>
         next_id s' = Suc (next_id s) \<and> art_status a = Draft \<and> art_published_at a = None"
  using assms
  by (auto simp add: article_create_def Let_def split: actor.splits if_splits)

lemma merge_patch_keeps [simp]:
  "art_id (merge_patch who patch now a) = art_id a"
  "art_status (merge_patch who patch now a) = art_status a"
  "art_published_at (merge_patch who patch now a) = art_published_at a"
  by (simp_all add: merge_patch_def)

lemma article_update_Inr:
  assumes "article_update who aid patch now s = Inr s'"
  shows "s' = change_article aid (merge_patch who patch now) s"
  using assms
  by (simp add: article_update_def split: option.splits if_splits)

lemma article_publish_Inr:
  assumes "article_publish who aid now s = Inr s'"
  obtains a where "find_article aid s = Some a"
    and "canPerform who DoModifyArticle (Some (art_author_id a))"
    and "art_status a = Published \<Longrightarrow> s' = s"
    and "art_status a \<noteq> Published \<Longrightarrow>
           s' = change_article aid (\<lambda>a. a\<lparr>art_status := Published, art_published_at := Some now\<rparr>) s"
  using assms
  by (auto simp add: article_publish_def split: option.splits if_splits)

lemma article_delete_Inr:
  assumes "article_delete who aid s = Inr s'"
  shows "articles s' = filter (\<lambda>a. art_id a \<noteq> aid) (articles s) \<and>
         comments s' = filter (\<lambda>c. com_article_id c \<noteq> aid) (comments s) \<and>
         next_id s' = next_id s"
  using assms
  by (auto simp add: article_delete_def split: option.splits if_splits)

lemma recordView_Inr:
  assumes "recordView aid s = Inr s'"
  shows "s' = change_article aid (\<lambda>a. a\<lparr>art_views_count := art_views_count a + 1\<rparr>) s"
  using assms
  by (auto simp add: recordView_def split: option.splits)

lemma toggleLike_Inr_store:
  assumes "toggleLike who aid s = Inr (liked, s')"
  shows "\<exists>f. articles s' = map (\<lambda>a. if art_id a = aid then f a else a) (articles s) \<and>
             (\<forall>a. art_id (f a) = art_id a \<and> art_status (f a) = art_status a \<and>
                  art_published_at (f a) = art_published_at a) \<and>
             comments s' = comments s \<and> next_id s' = next_id s"
proof -
  let ?dec = "\<lambda>a. a\<lparr>art_likes_count := art_likes_count a - 1\<rparr>"
  let ?inc = "\<lambda>a. a\<lparr>art_likes_count := art_likes_count a + 1\<rparr>"
  from assms have
    "(\<exists>l. s' = change_article aid ?dec (s\<lparr>likes := l\<rparr>)) \<or>
     (\<exists>l. s' = change_article aid ?inc (s\<lparr>likes := l\<rparr>))"
    by (auto simp add: toggleLike_def split: actor.splits option.splits if_splits)
  then show ?thesis
  proof
    assume "\<exists>l. s' = change_article aid ?dec (s\<lparr>likes := l\<rparr>)"
    then show ?thesis
      by (intro exI [of _ ?dec]) (auto simp add: change_article_def)
  next
    assume "\<exists>l. s' = change_article aid ?inc (s\<lparr>likes := l\<rparr>)"
    then show ?thesis
      by (intro exI [of _ ?inc]) (auto simp add: change_article_def)
  qed
qed

lemma comment_create_Inr:
  assumes "comment_create who aid content now s = Inr (c, s')"
  shows "comments s' = comments s @ [c] \<and> com_id c = next_id s \<and> articles s' = articles s \<and>
         next_id s' = Suc (next_id s) \<and> com_status c = Pending \<and> com_article_id c = aid \<and>
         com_content c = content \<and> content \<noteq> [] \<and> who \<noteq> Anonymous"
  using assms
  by (auto simp add: comment_create_def Let_def split: actor.splits if_splits option.splits)

lemma moderate_Inr:
  assumes "moderate decision who cid s = Inr s'"
  obtains c where "find_comment cid s = Some c" and "com_status c = Pending"
    and "canPerform who DoModerateComment (comment_owner c s)"
    and "s' = change_comment cid (\<lambda>c. c\<lparr>com_status := decision\<rparr>) s"
  using assms
  by (auto simp add: moderate_def split: option.splits if_splits)

lemma comment_delete_Inr:
  assumes "comment_delete who cid s = Inr s'"
  obtains c where "find_comment cid s = Some c"
    and "s' = s\<lparr>comments := filter (\<lambda>c. com_id c \<noteq> cid) (comments s)\<rparr>"
  using assms
  by (auto simp add: comment_delete_def split: option.splits if_splits)

subsection \<open>What the modelled server refuses\<close>

lemma article_create_empty:
  assumes "canPerform (Actor uid name r) DoCreateArticle None"
    and "fld_title flds = [] \<or> fld_content flds = []"
  shows "article_create (Actor uid name r) flds now s = Inl ValidationError"
  using assms by (simp add: article_create_def)

lemma comment_create_anonymous:
  "comment_create Anonymous aid content now s = Inl PermissionDenied"
  by (simp add: comment_create_def)

lemma comment_create_empty:
  "comment_create (Actor uid name r) aid [] now s = Inl ValidationError"
  by (cases r) (simp_all add: comment_create_def)

subsection \<open>A publication date stays\<close>

lemma published_at_fixed_change:
  assumes "published_at_fixed aid t s"
    and "\<And>a. art_id (f a) = art_id a"
    and "aid' = aid \<Longrightarrow> (\<And>a. art_status (f a) = art_status a \<and>
                                 art_published_at (f a) = art_published_at a)"
  shows "published_at_fixed aid t (change_article aid' f s)"
  using assms
  by (auto simp add: published_at_fixed_def change_article_def)

lemma exec_published_at_fixed:
  assumes inv: "published_at_fixed aid t s"
  shows "published_at_fixed aid t (exec s op)"
proof (cases op)
  case (CreateArticleOp who flds now)
  show ?thesis
  proof (cases "article_create who flds now s")
    case (Inl e)
    with CreateArticleOp inv show ?thesis by simp
  next
    case (Inr r)
    then obtain a s' where r: "article_create who flds now s = Inr (a, s')"
      by (cases r) simp
    from article_create_Inr [OF r] inv have "published_at_fixed aid t s'"
      by (auto simp add: published_at_fixed_def)
    with CreateArticleOp r show ?thesis by simp
  qed
next
  case (UpdateArticleOp who aid' patch now)
  show ?thesis
  proof (cases "article_update who aid' patch now s")
    case (Inl e)
    with UpdateArticleOp inv show ?thesis by simp
  next
    case (Inr s')
    from article_update_Inr [OF Inr] inv have "published_at_fixed aid t s'"
      by (simp add: published_at_fixed_change)
    with UpdateArticleOp Inr show ?thesis by simp
  qed
next
  case (PublishOp who aid' now)
  show ?thesis
  proof (cases "article_publish who aid' now s")
    case (Inl e)
    with PublishOp inv show ?thesis by simp
  next
    case (Inr s')
    from Inr obtain a where a: "find_article aid' s = Some a"
      and same: "art_status a = Published \<Longrightarrow> s' = s"
      and changed: "art_status a \<noteq> Published \<Longrightarrow>
           s' = change_article aid' (\<lambda>a. a\<lparr>art_status := Published, art_published_at := Some now\<rparr>) s"
      by (auto elim: article_publish_Inr)
    have "published_at_fixed aid t s'"
    proof (cases "art_status a = Published")
      case True
      with same inv show ?thesis by simp
    next
      case False
      from a have "a \<in> set (articles s)" and "art_id a = aid'"
        by (simp_all add: find_article_Some)
      with False inv have "aid' \<noteq> aid"
        by (auto simp add: published_at_fixed_def)
      with changed [OF False] inv show ?thesis
        by (simp add: published_at_fixed_change)
    qed
    with PublishOp Inr show ?thesis by simp
  qed
next
  case (DeleteArticleOp who aid')
  show ?thesis
  proof (cases "article_delete who aid' s")
    case (Inl e)
    with DeleteArticleOp inv show ?thesis by simp
  next
    case (Inr s')
    from article_delete_Inr [OF Inr] inv have "published_at_fixed aid t s'"
      by (auto simp add: published_at_fixed_def)
    with DeleteArticleOp Inr show ?thesis by simp
  qed
next
  case (RecordViewOp aid')
  show ?thesis
  proof (cases "recordView aid' s")
    case (Inl e)
    with RecordViewOp inv show ?thesis by simp
  next
    case (Inr s')
    from recordView_Inr [OF Inr] inv have "published_at_fixed aid t s'"
      by (simp add: published_at_fixed_change)
    with RecordViewOp Inr show ?thesis by simp
  qed
next
  case (ToggleLikeOp who aid')
  show ?thesis
  proof (cases "toggleLike who aid' s")
    case (Inl e)
    with ToggleLikeOp inv show ?thesis by simp
  next
    case (Inr r)
    then obtain liked s' where r: "toggleLike who aid' s = Inr (liked, s')"
      by (cases r) simp
    from toggleLike_Inr_store [OF r] inv have "published_at_fixed aid t s'"
      by (auto simp add: published_at_fixed_def)
    with ToggleLikeOp r show ?thesis by simp
  qed
next
  case (CreateCommentOp who aid' content now)
  show ?thesis
  proof (cases "comment_create who aid' content now s")
    case (Inl e)
    with CreateCommentOp inv show ?thesis by simp
  next
    case (Inr r)
    then obtain c s' where r: "comment_create who aid' content now s = Inr (c, s')"
      by (cases r) simp
    from comment_create_Inr [OF r] inv have "published_at_fixed aid t s'"
      by (auto simp add: published_at_fixed_def)
    with CreateCommentOp r show ?thesis by simp
  qed
next
  case (ApproveOp who cid)
  show ?thesis
  proof (cases "comment_approve who cid s")
    case (Inl e)
    with ApproveOp inv show ?thesis by simp
  next
    case (Inr s')
    then have "moderate Approved who cid s = Inr s'"
      by (simp add: comment_approve_def)
    then have "s' = change_comment cid (\<lambda>c. c\<lparr>com_status := Approved\<rparr>) s"
      by (auto elim: moderate_Inr)
    with inv have "published_at_fixed aid t s'"
      by (simp add: published_at_fixed_def)
    with ApproveOp Inr show ?thesis by simp
  qed
next
  case (RejectOp who cid)
  show ?thesis
  proof (cases "comment_reject who cid s")
    case (Inl e)
    with RejectOp inv show ?thesis by simp
  next
    case (Inr s')
    then have "moderate Rejected who cid s = Inr s'"
      by (simp add: comment_reject_def)
    then have "s' = change_comment cid (\<lambda>c. c\<lparr>com_status := Rejected\<rparr>) s"
      by (auto elim: moderate_Inr)
    with inv have "published_at_fixed aid t s'"
      by (simp add: published_at_fixed_def)
    with RejectOp Inr show ?thesis by simp
  qed
next
  case (DeleteCommentOp who cid)
  show ?thesis
  proof (cases "comment_delete who cid s")
    case (Inl e)
    with DeleteCommentOp inv show ?thesis by simp
  next
    case (Inr s')
    then have "s' = s\<lparr>comments := filter (\<lambda>c. com_id c \<noteq> cid) (comments s)\<rparr>"
      by (auto elim: comment_delete_Inr)
    with inv have "published_at_fixed aid t s'"
      by (simp add: published_at_fixed_def)
    with DeleteCommentOp Inr show ?thesis by simp
  qed
qed

lemma run_published_at_fixed:
  "published_at_fixed aid t s \<Longrightarrow> published_at_fixed aid t (run s ops)"
  unfolding run_def
  by (induction ops arbitrary: s) (simp_all add: exec_published_at_fixed)

subsection \<open>A moderation decision stays\<close>

lemma comment_held_articles:
  assumes "comment_held cid allowed s"
    and "comments s' = comments s" and "next_id s \<le> next_id s'"
  shows "comment_held cid allowed s'"
  using assms by (auto simp add: comment_held_def)

lemma comment_held_change:
  assumes "comment_held cid allowed s"
    and "cid' = cid \<Longrightarrow> decision \<in> allowed"
  shows "comment_held cid allowed (change_comment cid' (\<lambda>c. c\<lparr>com_status := decision\<rparr>) s)"
  using assms
  by (auto simp add: comment_held_def change_comment_def)

lemma moderate_comment_held:
  assumes inv: "comment_held cid allowed s"
    and ok: "moderate decision who cid' s = Inr s'"
    and closed: "Pending \<in> allowed \<Longrightarrow> cid' = cid \<Longrightarrow> decision \<in> allowed"
  shows "comment_held cid allowed s'"
proof -
  from ok obtain c where c: "find_comment cid' s = Some c" and p: "com_status c = Pending"
    and s': "s' = change_comment cid' (\<lambda>c. c\<lparr>com_status := decision\<rparr>) s"
    by (auto elim: moderate_Inr)
  from c have "c \<in> set (comments s)" and "com_id c = cid'"
    by (simp_all add: find_comment_Some)
  with p inv have "cid' = cid \<Longrightarrow> Pending \<in> allowed"
    by (auto simp add: comment_held_def)
  with closed have "cid' = cid \<Longrightarrow> decision \<in> allowed"
    by blast
  with inv show ?thesis
    unfolding s' by (rule comment_held_change)
qed

lemma exec_comment_held:
  assumes inv: "comment_held cid allowed s"
    and rejected: "Pending \<in> allowed \<Longrightarrow> Rejected \<in> allowed"
    and approve: "Pending \<in> allowed \<Longrightarrow> Approved \<notin> allowed \<Longrightarrow> (\<forall>who. op \<noteq> ApproveOp who cid)"
  shows "comment_held cid allowed (exec s op)"
proof (cases op)
  case (CreateArticleOp who flds now)
  show ?thesis
  proof (cases "article_create who flds now s")
    case (Inl e)
    with CreateArticleOp inv show ?thesis by simp
  next
    case (Inr r)
    then obtain a s' where r: "article_create who flds now s = Inr (a, s')"
      by (cases r) simp
    from article_create_Inr [OF r] inv have "comment_held cid allowed s'"
      by (simp add: comment_held_articles)
    with CreateArticleOp r show ?thesis by simp
  qed
next
  case (UpdateArticleOp who aid' patch now)
  show ?thesis
  proof (cases "article_update who aid' patch now s")
    case (Inl e)
    with UpdateArticleOp inv show ?thesis by simp
  next
    case (Inr s')
    from article_update_Inr [OF Inr] inv have "comment_held cid allowed s'"
      by (simp add: comment_held_articles)
    with UpdateArticleOp Inr show ?thesis by simp
  qed
next
  case (PublishOp who aid' now)
  show ?thesis
  proof (cases "article_publish who aid' now s")
    case (Inl e)
    with PublishOp inv show ?thesis by simp
  next
    case (Inr s')
    from Inr inv have "comment_held cid allowed s'"
      by (auto elim!: article_publish_Inr simp add: comment_held_articles)
    with PublishOp Inr show ?thesis by simp
  qed
next
  case (DeleteArticleOp who aid')
  show ?thesis
  proof (cases "article_delete who aid' s")
    case (Inl e)
    with DeleteArticleOp inv show ?thesis by simp
  next
    case (Inr s')
    from article_delete_Inr [OF Inr] inv have "comment_held cid allowed s'"
      by (auto simp add: comment_held_def)
    with DeleteArticleOp Inr show ?thesis by simp
  qed
next
  case (RecordViewOp aid')
  show ?thesis
  proof (cases "recordView aid' s")
    case (Inl e)
    with RecordViewOp inv show ?thesis by simp
  next
    case (Inr s')
    from recordView_Inr [OF Inr] inv have "comment_held cid allowed s'"
      by (simp add: comment_held_articles)
    with RecordViewOp Inr show ?thesis by simp
  qed
next
  case (ToggleLikeOp who aid')
  show ?thesis
  proof (cases "toggleLike who aid' s")
    case (Inl e)
    with ToggleLikeOp inv show ?thesis by simp
  next
    case (Inr r)
    then obtain liked s' where r: "toggleLike who aid' s = Inr (liked, s')"
      by (cases r) simp
    from toggleLike_Inr_store [OF r] inv have "comment_held cid allowed s'"
      by (auto simp add: comment_held_articles)
    with ToggleLikeOp r show ?thesis by simp
  qed
next
  case (CreateCommentOp who aid' content now)
  show ?thesis
  proof (cases "comment_create who aid' content now s")
    case (Inl e)
    with CreateCommentOp inv show ?thesis by simp
  next
    case (Inr r)
    then obtain c s' where r: "comment_create who aid' content now s = Inr (c, s')"
      by (cases r) simp
    from comment_create_Inr [OF r] inv have "comment_held cid allowed s'"
      by (auto simp add: comment_held_def)
    with CreateCommentOp r show ?thesis by simp
  qed
next
  case (ApproveOp who cid')
  show ?thesis
  proof (cases "comment_approve who cid' s")
    case (Inl e)
    with ApproveOp inv show ?thesis by simp
  next
    case (Inr s')
    then have m: "moderate Approved who cid' s = Inr s'"
      by (simp add: comment_approve_def)
    have "Approved \<in> allowed" if "Pending \<in> allowed" and "cid' = cid"
      using that approve ApproveOp by blast
    with inv m have "comment_held cid allowed s'"
      by (rule moderate_comment_held)
    with ApproveOp Inr show ?thesis by simp
  qed
next
  case (RejectOp who cid')
  show ?thesis
  proof (cases "comment_reject who cid' s")
    case (Inl e)
    with RejectOp inv show ?thesis by simp
  next
    case (Inr s')
    then have m: "moderate Rejected who cid' s = Inr s'"
      by (simp add: comment_reject_def)
    from inv m rejected have "comment_held cid allowed s'"
      by (rule moderate_comment_held)
    with RejectOp Inr show ?thesis by simp
  qed
next
  case (DeleteCommentOp who cid')
  show ?thesis
  proof (cases "comment_delete who cid' s")
    case (Inl e)
    with DeleteCommentOp inv show ?thesis by simp
  next
    case (Inr s')
    then have "s' = s\<lparr>comments := filter (\<lambda>c. com_id c \<noteq> cid') (comments s)\<rparr>"
      by (auto elim: comment_delete_Inr)
    with inv have "comment_held cid allowed s'"
      by (simp add: comment_held_def)
    with DeleteCommentOp Inr show ?thesis by simp
  qed
qed

lemma run_comment_held:
  assumes "comment_held cid allowed s"
    and "Pending \<in> allowed \<Longrightarrow> Rejected \<in> allowed"
    and "Pending \<in> allowed \<Longrightarrow> Approved \<notin> allowed \<Longrightarrow> (\<forall>who. ApproveOp who cid \<notin> set ops)"
  shows "comment_held cid allowed (run s ops)"
  using assms unfolding run_def
proof (induction ops arbitrary: s)
  case Nil
  then show ?case by simp
next
  case (Cons op ops)
  have "comment_held cid allowed (exec s op)"
    using Cons.prems by (intro exec_comment_held) auto
  then have "comment_held cid allowed (foldl exec (exec s op) ops)"
    using Cons.prems by (intro Cons.IH) auto
  then show ?case by simp
qed

lemma set_listApproved:
  "set (listApproved aid s) =
     {c \<in> set (comments s). com_article_id c = aid \<and> com_status c = Approved}"
  by (auto simp add: listApproved_def)

lemma comment_held_not_listed:
  assumes "comment_held cid allowed s" and "Approved \<notin> allowed"
  shows "cid \<notin> set (listed_ids aid s)"
  using assms
  by (auto simp add: listed_ids_def set_listApproved comment_held_def)

subsection \<open>Ids come from the counter\<close>

lemma ids_issued_empty: "ids_issued empty_store"
  by (simp add: ids_issued_def empty_store_def)

lemma ids_issued_iff:
  "ids_issued s \<longleftrightarrow>
     (\<forall>a \<in> set (articles s). art_id a < next_id s) \<and>
     (\<forall>c \<in> set (comments s). com_id c < next_id s)"
  by (simp add: ids_issued_def list_all_iff)

lemma exec_ids_issued:
  assumes inv: "ids_issued s"
  shows "ids_issued (exec s op)"
proof (cases op)
  case (CreateArticleOp who flds now)
  show ?thesis
  proof (cases "article_create who flds now s")
    case (Inl e)
    with CreateArticleOp inv show ?thesis by simp
  next
    case (Inr r)
    then obtain a s' where r: "article_create who flds now s = Inr (a, s')"
      by (cases r) simp
    from article_create_Inr [OF r] inv have "ids_issued s'"
      by (auto simp add: ids_issued_iff less_Suc_eq)
    with CreateArticleOp r show ?thesis by simp
  qed
next
  case (UpdateArticleOp who aid' patch now)
  show ?thesis
  proof (cases "article_update who aid' patch now s")
    case (Inl e)
    with UpdateArticleOp inv show ?thesis by simp
  next
    case (Inr s')
    from article_update_Inr [OF Inr] inv have "ids_issued s'"
      by (auto simp add: ids_issued_iff change_article_def)
    with UpdateArticleOp Inr show ?thesis by simp
  qed
next
  case (PublishOp who aid' now)
  show ?thesis
  proof (cases "article_publish who aid' now s")
    case (Inl e)
    with PublishOp inv show ?thesis by simp
  next
    case (Inr s')
    from Inr inv have "ids_issued s'"
      by (auto elim!: article_publish_Inr simp add: ids_issued_iff change_article_def)
    with PublishOp Inr show ?thesis by simp
  qed
next
  case (DeleteArticleOp who aid')
  show ?thesis
  proof (cases "article_delete who aid' s")
    case (Inl e)
    with DeleteArticleOp inv show ?thesis by simp
  next
    case (Inr s')
    from article_delete_Inr [OF Inr] inv have "ids_issued s'"
      by (auto simp add: ids_issued_iff)
    with DeleteArticleOp Inr show ?thesis by simp
  qed
next
  case (RecordViewOp aid')
  show ?thesis
  proof (cases "recordView aid' s")
    case (Inl e)
    with RecordViewOp inv show ?thesis by simp
  next
    case (Inr s')
    from recordView_Inr [OF Inr] inv have "ids_issued s'"
      by (auto simp add: ids_issued_iff change_article_def)
    with RecordViewOp Inr show ?thesis by simp
  qed
next
  case (ToggleLikeOp who aid')
  show ?thesis
  proof (cases "toggleLike who aid' s")
    case (Inl e)
    with ToggleLikeOp inv show ?thesis by simp
  next
    case (Inr r)
    then obtain liked s' where r: "toggleLike who aid' s = Inr (liked, s')"
      by (cases r) simp
    from toggleLike_Inr_store [OF r] inv have "ids_issued s'"
      by (auto simp add: ids_issued_iff)
    with ToggleLikeOp r show ?thesis by simp
  qed
next
  case (CreateCommentOp who aid' content now)
  show ?thesis
  proof (cases "comment_create who aid' content now s")
    case (Inl e)
    with CreateCommentOp inv show ?thesis by simp
  next
    case (Inr r)
    then obtain c s' where r: "comment_create who aid' content now s = Inr (c, s')"
      by (cases r) simp
    from comment_create_Inr [OF r] inv have "ids_issued s'"
      by (auto simp add: ids_issued_iff less_Suc_eq)
    with CreateCommentOp r show ?thesis by simp
  qed
next
  case (ApproveOp who cid')
  show ?thesis
  proof (cases "comment_approve who cid' s")
    case (Inl e)
    with ApproveOp inv show ?thesis by simp
  next
    case (Inr s')
    then have "moderate Approved who cid' s = Inr s'"
      by (simp add: comment_approve_def)
    with inv have "ids_issued s'"
      by (auto elim!: moderate_Inr simp add: ids_issued_iff change_comment_def)
    with ApproveOp Inr show ?thesis by simp
  qed
next
  case (RejectOp who cid')
  show ?thesis
  proof (cases "comment_reject who cid' s")
    case (Inl e)
    with RejectOp inv show ?thesis by simp
  next
    case (Inr s')
    then have "moderate Rejected who cid' s = Inr s'"
      by (simp add: comment_reject_def)
    with inv have "ids_issued s'"
      by (auto elim!: moderate_Inr simp add: ids_issued_iff change_comment_def)
    with RejectOp Inr show ?thesis by simp
  qed
next
  case (DeleteCommentOp who cid')
  show ?thesis
  proof (cases "comment_delete who cid' s")
    case (Inl e)
    with DeleteCommentOp inv show ?thesis by simp
  next
    case (Inr s')
    with inv have "ids_issued s'"
      by (auto elim!: comment_delete_Inr simp add: ids_issued_iff)
    with DeleteCommentOp Inr show ?thesis by simp
  qed
qed

lemma run_ids_issued: "ids_issued s \<Longrightarrow> ids_issued (run s ops)"
  unfolding run_def
  by (induction ops arbitrary: s) (simp_all add: exec_ids_issued)

lemma reachable_ids_issued: "ids_issued (run empty_store ops)"
  by (rule run_ids_issued) (rule ids_issued_empty)

subsection \<open>Only approved comments are listed\<close>

lemma map_decided:
  "list_all (\<lambda>c. com_id c = cid \<longrightarrow> com_status c = decision)
     (map (\<lambda>c. if com_id c = cid then c\<lparr>com_status := decision\<rparr> else c) xs)"
  by (induction xs) simp_all

lemma comment_held_decided:
  assumes "cid < next_id s"
  shows "comment_held cid {decision} (change_comment cid (\<lambda>c. c\<lparr>com_status := decision\<rparr>) s)"
proof -
  have "comments (change_comment cid (\<lambda>c. c\<lparr>com_status := decision\<rparr>) s) =
        map (\<lambda>c. if com_id c = cid then c\<lparr>com_status := decision\<rparr> else c) (comments s)"
    by (simp add: change_comment_def)
  with assms map_decided [of cid decision "comments s"] show ?thesis
    unfolding comment_held_def list_all_iff by (simp del: set_map)
qed

lemma comment_held_removed:
  assumes "cid < next_id s"
  shows "comment_held cid allowed (s\<lparr>comments := filter (\<lambda>c. com_id c \<noteq> cid) (comments s)\<rparr>)"
  using assms
  by (simp add: comment_held_def)

lemma created_comment_unlisted:
  assumes create: "comment_create who aid content now s = Inr (c, s1)"
    and issued: "ids_issued s"
    and ops: "\<forall>w. ApproveOp w (com_id c) \<notin> set ops"
  shows "com_id c \<notin> set (listed_ids a (run s1 ops))"
proof -
  from comment_create_Inr [OF create] issued
  have "comment_held (com_id c) {Pending, Rejected} s1"
    by (auto simp add: comment_held_def ids_issued_iff)
  then have "comment_held (com_id c) {Pending, Rejected} (run s1 ops)"
    using ops by (intro run_comment_held) auto
  then show ?thesis
    by (rule comment_held_not_listed) simp
qed

lemma approved_comment_listed:
  assumes c: "find_comment cid s = Some c"
    and approve: "comment_approve who cid s = Inr s1"
  shows "c\<lparr>com_status := Approved\<rparr> \<in> set (listApproved (com_article_id c) s1)"
proof -
  from approve have "moderate Approved who cid s = Inr s1"
    by (simp add: comment_approve_def)
  then have s1: "s1 = change_comment cid (\<lambda>c. c\<lparr>com_status := Approved\<rparr>) s"
    by (auto elim: moderate_Inr)
  from c have "c \<in> set (comments s)" and "com_id c = cid"
    by (simp_all add: find_comment_Some)
  then have "c\<lparr>com_status := Approved\<rparr> \<in>
      (\<lambda>c. if com_id c = cid then c\<lparr>com_status := Approved\<rparr> else c) ` set (comments s)"
    by (intro image_eqI [of _ _ c]) simp_all
  then have "c\<lparr>com_status := Approved\<rparr> \<in> set (comments s1)"
    unfolding s1 change_comment_def by (simp del: image_set add: image_set [symmetric])
  then show ?thesis
    by (simp add: set_listApproved)
qed

lemma rejected_comment_unlisted:
  assumes reject: "comment_reject who cid s = Inr s1"
    and issued: "ids_issued s"
  shows "cid \<notin> set (listed_ids a (run s1 ops))"
proof -
  from reject have "moderate Rejected who cid s = Inr s1"
    by (simp add: comment_reject_def)
  then obtain c where c: "find_comment cid s = Some c"
    and s1: "s1 = change_comment cid (\<lambda>c. c\<lparr>com_status := Rejected\<rparr>) s"
    by (auto elim: moderate_Inr)
  from c issued have "cid < next_id s"
    by (auto simp add: ids_issued_iff dest: find_comment_Some)
  then have "comment_held cid {Rejected} s1"
    unfolding s1 by (rule comment_held_decided)
  then have "comment_held cid {Rejected} (run s1 ops)"
    by (intro run_comment_held) auto
  then show ?thesis
    by (rule comment_held_not_listed) simp
qed

lemma deleted_comment_unlisted:
  assumes delete: "comment_delete who cid s = Inr s1"
    and issued: "ids_issued s"
  shows "cid \<notin> set (listed_ids a (run s1 ops))"
proof -
  from delete obtain c where c: "find_comment cid s = Some c"
    and s1: "s1 = s\<lparr>comments := filter (\<lambda>c. com_id c \<noteq> cid) (comments s)\<rparr>"
    by (auto elim: comment_delete_Inr)
  from c issued have "cid < next_id s"
    by (auto simp add: ids_issued_iff dest: find_comment_Some)
  then have "comment_held cid {Rejected} s1"
    unfolding s1 by (rule comment_held_removed)
  then have "comment_held cid {Rejected} (run s1 ops)"
    by (intro run_comment_held) auto
  then show ?thesis
    by (rule comment_held_not_listed) simp
qed

text \<open>
  C3. A comment is in \<open>listApproved\<close> of an article exactly when it is a comment of that
  article with status approved. A comment that \<open>create\<close> has just made is pending and, in
  a store whose ids come from the counter, is in no listing of approved comments, nor
  after any further operations among which there is no \<open>approve\<close> of it. An \<open>approve\<close>
  that succeeds puts the comment, now approved, into the listing of its article. After a
  \<open>reject\<close> or a \<open>delete\<close> that succeeds the comment is in no listing of approved comments,
  whatever operations follow. On the client, the article page shows the list that
  \<open>getComments\<close> returned (a public \<^verbatim>\<open>GET /comments/:id\<close>), and submitting a comment leaves
  the shown list as it is.
\<close>

theorem comment_visibility:
  "(c \<in> set (listApproved aid s) \<longleftrightarrow>
      c \<in> set (comments s) \<and> com_article_id c = aid \<and> com_status c = Approved) \<and>
   (\<forall>c s1. comment_create who aid content now s = Inr (c, s1) \<and> ids_issued s \<longrightarrow>
      com_status c = Pending \<and> c \<in> set (comments s1) \<and>
      (\<forall>ops a. (\<forall>w. ApproveOp w (com_id c) \<notin> set ops) \<longrightarrow>
         com_id c \<notin> set (listed_ids a (run s1 ops)))) \<and>
   (\<forall>c s1. find_comment cid s = Some c \<and> comment_approve who cid s = Inr s1 \<longrightarrow>
      c\<lparr>com_status := Approved\<rparr> \<in> set (listApproved (com_article_id c) s1)) \<and>
   (\<forall>s1. (comment_reject who cid s = Inr s1 \<or> comment_delete who cid s = Inr s1) \<and>
         ids_issued s \<longrightarrow>
      (\<forall>ops a. cid \<notin> set (listed_ids a (run s1 ops)))) \<and>
   ds_comments (snd (loadArticleData id' (Fulfils article) (Fulfils listing) (Fulfils others) st)) =
     listing \<and>
   ds_comments (snd (handleCommentSubmit user id' response st)) = ds_comments st \<and>
   api_request token (GetComments id') =
     \<lparr>req_method = GET, req_url = js ''/comments/'' @ id', req_params = [],
      req_body = JUndefined, req_headers = []\<rparr>"
proof (intro conjI allI impI)
  show "c \<in> set (listApproved aid s) \<longleftrightarrow>
      c \<in> set (comments s) \<and> com_article_id c = aid \<and> com_status c = Approved"
    by (simp add: set_listApproved)
next
  fix c s1
  assume a: "comment_create who aid content now s = Inr (c, s1) \<and> ids_issued s"
  from comment_create_Inr [OF conjunct1 [OF a]]
  show "com_status c = Pending" and "c \<in> set (comments s1)"
    by simp_all
  show "com_id c \<notin> set (listed_ids a' (run s1 ops))"
    if "\<forall>w. ApproveOp w (com_id c) \<notin> set ops" for ops a'
    by (rule created_comment_unlisted [OF conjunct1 [OF a] conjunct2 [OF a] that])
next
  fix c s1
  assume a: "find_comment cid s = Some c \<and> comment_approve who cid s = Inr s1"
  show "c\<lparr>com_status := Approved\<rparr> \<in> set (listApproved (com_article_id c) s1)"
    by (rule approved_comment_listed [OF conjunct1 [OF a] conjunct2 [OF a]])
next
  fix s1 ops a'
  assume "(comment_reject who cid s = Inr s1 \<or> comment_delete who cid s = Inr s1) \<and>
         ids_issued s"
  then show "cid \<notin> set (listed_ids a' (run s1 ops))"
    using rejected_comment_unlisted [of who cid s s1 a' ops]
      deleted_comment_unlisted [of who cid s s1 a' ops]
    by blast
next
  show "ds_comments (snd (loadArticleData id' (Fulfils article) (Fulfils listing) (Fulfils others) st)) =
     listing"
    by (simp add: loadArticleData_def)
  show "ds_comments (snd (handleCommentSubmit user id' response st)) = ds_comments st"
    by (simp add: handleCommentSubmit_def split: promise.splits)
  show "api_request token (GetComments id') =
     \<lparr>req_method = GET, req_url = js ''/comments/'' @ id', req_params = [],
      req_body = JUndefined, req_headers = []\<rparr>"
    by simp
qed

text \<open>
  Reader 7 comments on article 0 of writer 1: the comment is pending and not listed. When
  the writer approves it, it is listed; when the writer rejects it instead, it is not,
  even after an admin tries to approve it.
\<close>

theorem comment_visibility_witness:
  "comment_create (Actor 7 (js ''Ann'') Reader) 0 (js ''nice post'') 20
     \<lparr>articles = [sample_article 0 1 Published 0 10], likes = {}, comments = [], next_id = 1\<rparr> =
     Inr (sample_comment 1 0 7 Pending 20,
          \<lparr>articles = [sample_article 0 1 Published 0 10], likes = {},
           comments = [sample_comment 1 0 7 Pending 20], next_id = 2\<rparr>) \<and>
   1 \<notin> set (listed_ids 0
              \<lparr>articles = [sample_article 0 1 Published 0 10], likes = {},
               comments = [sample_comment 1 0 7 Pending 20], next_id = 2\<rparr>) \<and>
   comment_approve (Actor 1 (js ''Wil'') Writer) 1
     \<lparr>articles = [sample_article 0 1 Published 0 10], likes = {},
      comments = [sample_comment 1 0 7 Pending 20], next_id = 2\<rparr> =
     Inr \<lparr>articles = [sample_article 0 1 Published 0 10], likes = {},
          comments = [sample_comment 1 0 7 Approved 20], next_id = 2\<rparr> \<and>
   sample_comment 1 0 7 Approved 20
     \<in> set (listApproved 0
              \<lparr>articles = [sample_article 0 1 Published 0 10], likes = {},
               comments = [sample_comment 1 0 7 Approved 20], next_id = 2\<rparr>) \<and>
   comment_reject (Actor 1 (js ''Wil'') Writer) 1
     \<lparr>articles = [sample_article 0 1 Published 0 10], likes = {},
      comments = [sample_comment 1 0 7 Pending 20], next_id = 2\<rparr> =
     Inr \<lparr>articles = [sample_article 0 1 Published 0 10], likes = {},
          comments = [sample_comment 1 0 7 Rejected 20], next_id = 2\<rparr> \<and>
   1 \<notin> set (listed_ids 0
              (run \<lparr>articles = [sample_article 0 1 Published 0 10], likes = {},
                    comments = [sample_comment 1 0 7 Rejected 20], next_id = 2\<rparr>
                 [ApproveOp (Actor 9 (js ''Adm'') Admin) 1]))"
proof -
  let ?ann = "Actor 7 (js ''Ann'') Reader"
  let ?wil = "Actor 1 (js ''Wil'') Writer"
  let ?art = "sample_article 0 1 Published 0 10"
  let ?s = "\<lparr>articles = [?art], likes = {}, comments = [], next_id = 1\<rparr>"
  let ?s1 = "\<lparr>articles = [?art], likes = {}, comments = [sample_comment 1 0 7 Pending 20],
              next_id = 2\<rparr>"
  let ?s2 = "\<lparr>articles = [?art], likes = {}, comments = [sample_comment 1 0 7 Approved 20],
              next_id = 2\<rparr>"
  let ?s3 = "\<lparr>articles = [?art], likes = {}, comments = [sample_comment 1 0 7 Rejected 20],
              next_id = 2\<rparr>"
  have create: "comment_create ?ann 0 (js ''nice post'') 20 ?s =
      Inr (sample_comment 1 0 7 Pending 20, ?s1)"
    by (simp add: comment_create_def find_article_def sample_article_def sample_comment_def
        Let_def js_def)
  have issued: "ids_issued ?s"
    by (simp add: ids_issued_def sample_article_def)
  have issued1: "ids_issued ?s1"
    by (simp add: ids_issued_def sample_article_def sample_comment_def)
  have id1: "com_id (sample_comment 1 0 7 Pending 20) = 1"
    by (simp add: sample_comment_def)
  from comment_visibility [where s = ?s and who = ?ann and aid = 0
      and content = "js ''nice post''" and now = 20] create issued
  have "\<forall>ops a. (\<forall>w. ApproveOp w (com_id (sample_comment 1 0 7 Pending 20)) \<notin> set ops) \<longrightarrow>
         com_id (sample_comment 1 0 7 Pending 20) \<notin> set (listed_ids a (run ?s1 ops))"
    by blast
  then have "(\<forall>w. ApproveOp w 1 \<notin> set []) \<longrightarrow> 1 \<notin> set (listed_ids 0 (run ?s1 []))"
    unfolding id1 by blast
  then have hidden: "1 \<notin> set (listed_ids 0 ?s1)"
    by (simp add: run_def)
  have found: "find_comment 1 ?s1 = Some (sample_comment 1 0 7 Pending 20)"
    by (simp add: find_comment_def sample_comment_def)
  have approve: "comment_approve ?wil 1 ?s1 = Inr ?s2"
    by (simp add: comment_approve_def moderate_def find_comment_def comment_owner_def
        find_article_def change_comment_def sample_article_def sample_comment_def)
  have reject: "comment_reject ?wil 1 ?s1 = Inr ?s3"
    by (simp add: comment_reject_def moderate_def find_comment_def comment_owner_def
        find_article_def change_comment_def sample_article_def sample_comment_def)
  from comment_visibility [where s = ?s1 and who = ?wil and cid = 1] found approve
  have "(sample_comment 1 0 7 Pending 20)\<lparr>com_status := Approved\<rparr>
      \<in> set (listApproved (com_article_id (sample_comment 1 0 7 Pending 20)) ?s2)"
    by blast
  then have shown: "sample_comment 1 0 7 Approved 20 \<in> set (listApproved 0 ?s2)"
    by (simp add: sample_comment_def)
  from comment_visibility [where s = ?s1 and who = ?wil and cid = 1] reject issued1
  have "\<forall>ops a. 1 \<notin> set (listed_ids a (run ?s3 ops))"
    by blast
  then have gone: "1 \<notin> set (listed_ids 0 (run ?s3 [ApproveOp (Actor 9 (js ''Adm'') Admin) 1]))"
    by blast
  from create hidden approve shown reject gone show ?thesis
    by simp
qed

subsection \<open>Publishing is idempotent\<close>

lemma publish_published:
  assumes "find_article aid s = Some a" and "art_status a = Published"
    and "canPerform who DoModifyArticle (Some (art_author_id a))"
  shows "article_publish who aid now s = Inr s"
  using assms by (simp add: article_publish_def)

lemma publish_draft:
  assumes "find_article aid s = Some a" and "art_status a = Draft"
    and "article_publish who aid now s = Inr s1"
  shows "s1 = change_article aid (\<lambda>a. a\<lparr>art_status := Published, art_published_at := Some now\<rparr>) s"
    and "canPerform who DoModifyArticle (Some (art_author_id a))"
  using assms by (simp_all add: article_publish_def split: if_splits)

lemma publish_again:
  assumes "article_publish who aid t1 s = Inr s1"
  shows "article_publish who aid t2 s1 = Inr s1"
proof -
  from assms obtain a where a: "find_article aid s = Some a"
    and perm: "canPerform who DoModifyArticle (Some (art_author_id a))"
    and same: "art_status a = Published \<Longrightarrow> s1 = s"
    and changed: "art_status a \<noteq> Published \<Longrightarrow>
           s1 = change_article aid (\<lambda>a. a\<lparr>art_status := Published, art_published_at := Some t1\<rparr>) s"
    by (auto elim: article_publish_Inr)
  show ?thesis
  proof (cases "art_status a = Published")
    case True
    with a perm same show ?thesis
      by (simp add: publish_published)
  next
    case False
    let ?f = "\<lambda>a. a\<lparr>art_status := Published, art_published_at := Some t1\<rparr>"
    from a have "find_article aid (change_article aid ?f s) = Some (?f a)"
      by (simp add: find_article_change)
    with changed [OF False] have "find_article aid s1 = Some (?f a)"
      by simp
    moreover have "art_status (?f a) = Published"
      by simp
    moreover from perm have "canPerform who DoModifyArticle (Some (art_author_id (?f a)))"
      by simp
    ultimately show ?thesis
      by (rule publish_published)
  qed
qed

lemma map_published:
  "list_all (\<lambda>a. art_id a = aid \<longrightarrow> art_status a = Published \<and> art_published_at a = Some t)
     (map (\<lambda>a. if art_id a = aid then a\<lparr>art_status := Published, art_published_at := Some t\<rparr>
                else a) xs)"
  by (induction xs) simp_all

lemma publish_first:
  assumes a: "find_article aid s = Some a" and draft: "art_status a = Draft"
    and publish: "article_publish who aid t1 s = Inr s1"
  shows "find_article aid s1 = Some (a\<lparr>art_status := Published, art_published_at := Some t1\<rparr>)"
    and "ids_issued s \<Longrightarrow> published_at_fixed aid t1 s1"
proof -
  let ?f = "\<lambda>a. a\<lparr>art_status := Published, art_published_at := Some t1\<rparr>"
  from publish_draft(1) [OF a draft publish] have s1: "s1 = change_article aid ?f s" .
  from a show "find_article aid s1 = Some (?f a)"
    by (simp add: s1 find_article_change)
  assume "ids_issued s"
  with a have "aid < next_id s"
    by (auto simp add: ids_issued_iff dest: find_article_Some)
  moreover have "articles s1 = map (\<lambda>a. if art_id a = aid then ?f a else a) (articles s)"
    by (simp add: s1 change_article_def)
  ultimately show "published_at_fixed aid t1 s1"
    using map_published [of aid t1 "articles s"]
    unfolding published_at_fixed_def list_all_iff by (simp del: set_map add: s1)
qed

lemma published_at_fixed_find:
  assumes "published_at_fixed aid t s" and "find_article aid s = Some a"
  shows "art_status a = Published \<and> art_published_at a = Some t"
  using assms by (auto simp add: published_at_fixed_def dest: find_article_Some)

text \<open>
  C4. \<open>publish\<close> on an article that is already published succeeds and changes nothing.
  Whenever a call of \<open>publish\<close> succeeds, a second call (at any later time) succeeds too
  and leaves the store of the first call as it is, so the status is still published and
  \<^verbatim>\<open>published_at\<close> is unchanged. The first publication of a draft sets the status to
  published and \<^verbatim>\<open>published_at\<close> to the time of that call; in a store whose ids come from
  the counter, no sequence of later operations changes either as long as the article
  exists. On the client, the dashboard offers the Publish button exactly on articles
  whose status is \<^verbatim>\<open>draft\<close>, and \<open>handlePublish\<close> makes the one call \<open>publishArticle\<close> for the
  article it is given.
\<close>

theorem publish_idempotent:
  "(\<forall>a. find_article aid s = Some a \<and> art_status a = Published \<and>
        canPerform who DoModifyArticle (Some (art_author_id a)) \<longrightarrow>
        article_publish who aid now s = Inr s) \<and>
   (\<forall>s1. article_publish who aid t1 s = Inr s1 \<longrightarrow> article_publish who aid t2 s1 = Inr s1) \<and>
   (\<forall>a s1. find_article aid s = Some a \<and> art_status a = Draft \<and>
           article_publish who aid t1 s = Inr s1 \<longrightarrow>
        find_article aid s1 =
          Some (a\<lparr>art_status := Published, art_published_at := Some t1\<rparr>) \<and>
        (ids_issued s \<longrightarrow>
           (\<forall>ops b. find_article aid (run s1 ops) = Some b \<longrightarrow>
              art_status b = Published \<and> art_published_at b = Some t1))) \<and>
   (PublishButton \<in> set (card_buttons article) \<longleftrightarrow> ca_status article = js ''draft'') \<and>
   (\<forall>c. Call c \<in> set (handlePublish articleId response) \<longrightarrow> c = PublishArticle articleId) \<and>
   handlePublish articleId (Fulfils ()) =
     [Call (PublishArticle articleId), ToastSuccess (js ''Article published successfully!''),
      LoadDashboardData]"
proof (intro conjI allI impI)
  fix a
  assume "find_article aid s = Some a \<and> art_status a = Published \<and>
        canPerform who DoModifyArticle (Some (art_author_id a))"
  then show "article_publish who aid now s = Inr s"
    by (simp add: publish_published)
next
  fix s1
  assume "article_publish who aid t1 s = Inr s1"
  then show "article_publish who aid t2 s1 = Inr s1"
    by (rule publish_again)
next
  fix a s1
  assume h: "find_article aid s = Some a \<and> art_status a = Draft \<and>
           article_publish who aid t1 s = Inr s1"
  then have a: "find_article aid s = Some a" and d: "art_status a = Draft"
    and p: "article_publish who aid t1 s = Inr s1"
    by simp_all
  show "find_article aid s1 =
          Some (a\<lparr>art_status := Published, art_published_at := Some t1\<rparr>)"
    by (rule publish_first(1) [OF a d p])
  show "art_status b = Published" and "art_published_at b = Some t1"
    if "ids_issued s" and b: "find_article aid (run s1 ops) = Some b" for ops b
  proof -
    from that have "published_at_fixed aid t1 s1"
      by (intro publish_first(2) [OF a d p])
    then have "published_at_fixed aid t1 (run s1 ops)"
      by (rule run_published_at_fixed)
    from published_at_fixed_find [OF this b]
    show "art_status b = Published" and "art_published_at b = Some t1"
      by simp_all
  qed
next
  show "PublishButton \<in> set (card_buttons article) \<longleftrightarrow> ca_status article = js ''draft''"
    by (simp add: card_buttons_def)
  show "c = PublishArticle articleId" if "Call c \<in> set (handlePublish articleId response)" for c
    using that by (auto simp add: handlePublish_def split: promise.splits)
  show "handlePublish articleId (Fulfils ()) =
     [Call (PublishArticle articleId), ToastSuccess (js ''Article published successfully!''),
      LoadDashboardData]"
    by (simp add: handlePublish_def)
qed

text \<open>
  Writer 1 publishes the own draft 0 at time 50 and again at time 60; a view and an
  admin's publish at time 70 follow. The date stays 50. The dashboard shows the Publish
  button on a draft and not on a published article.
\<close>

theorem publish_idempotent_witness:
  "article_publish (Actor 1 (js ''Wil'') Writer) 0 50
     \<lparr>articles = [sample_article 0 1 Draft 0 10], likes = {}, comments = [], next_id = 1\<rparr> =
     Inr \<lparr>articles = [(sample_article 0 1 Draft 0 10)
                          \<lparr>art_status := Published, art_published_at := Some 50\<rparr>],
          likes = {}, comments = [], next_id = 1\<rparr> \<and>
   article_publish (Actor 1 (js ''Wil'') Writer) 0 60
     \<lparr>articles = [(sample_article 0 1 Draft 0 10)
                     \<lparr>art_status := Published, art_published_at := Some 50\<rparr>],
      likes = {}, comments = [], next_id = 1\<rparr> =
     Inr \<lparr>articles = [(sample_article 0 1 Draft 0 10)
                          \<lparr>art_status := Published, art_published_at := Some 50\<rparr>],
          likes = {}, comments = [], next_id = 1\<rparr> \<and>
   map_option art_published_at
     (find_article 0
        (run \<lparr>articles = [(sample_article 0 1 Draft 0 10)
                              \<lparr>art_status := Published, art_published_at := Some 50\<rparr>],
              likes = {}, comments = [], next_id = 1\<rparr>
           [RecordViewOp 0, PublishOp (Actor 9 (js ''Adm'') Admin) 0 70])) = Some (Some 50) \<and>
   card_buttons (sample_client_article (js ''a1'') (js ''draft'') 0) =
     [PublishButton, ViewButton, EditButton, DeleteButton] \<and>
   card_buttons (sample_client_article (js ''a1'') (js ''published'') 0) =
     [ViewButton, EditButton, DeleteButton]"
proof -
  let ?wil = "Actor 1 (js ''Wil'') Writer"
  let ?draft = "sample_article 0 1 Draft 0 10"
  let ?s = "\<lparr>articles = [?draft], likes = {}, comments = [], next_id = 1\<rparr>"
  let ?s1 = "\<lparr>articles = [?draft\<lparr>art_status := Published, art_published_at := Some 50\<rparr>],
              likes = {}, comments = [], next_id = 1\<rparr>"
  let ?ops = "[RecordViewOp 0, PublishOp (Actor 9 (js ''Adm'') Admin) 0 70]"
  have found: "find_article 0 ?s = Some ?draft"
    by (simp add: find_article_def sample_article_def)
  have draft: "art_status ?draft = Draft"
    by (simp add: sample_article_def)
  have issued: "ids_issued ?s"
    by (simp add: ids_issued_def sample_article_def)
  have first: "article_publish ?wil 0 50 ?s = Inr ?s1"
    by (simp add: article_publish_def find_article_def change_article_def sample_article_def)
  note inst = publish_idempotent [where aid = 0 and s = ?s and who = ?wil and ?t1.0 = 50
      and ?t2.0 = 60]
  from inst first have second: "article_publish ?wil 0 60 ?s1 = Inr ?s1"
    by blast
  have later: "\<exists>b. find_article 0 (run ?s1 ?ops) = Some b"
    by (simp add: run_def recordView_def article_publish_def find_article_def
        change_article_def sample_article_def)
  from inst found draft first issued
  have "\<forall>ops b. find_article 0 (run ?s1 ops) = Some b \<longrightarrow>
          art_status b = Published \<and> art_published_at b = Some 50"
    by blast
  with later have kept: "map_option art_published_at (find_article 0 (run ?s1 ?ops)) =
      Some (Some 50)"
    by auto
  have buttons:
    "card_buttons (sample_client_article (js ''a1'') (js ''draft'') 0) =
       [PublishButton, ViewButton, EditButton, DeleteButton]"
    "card_buttons (sample_client_article (js ''a1'') (js ''published'') 0) =
       [ViewButton, EditButton, DeleteButton]"
    by (simp_all add: card_buttons_def sample_client_article_def js_def)
  from first second kept buttons show ?thesis
    by simp
qed

end
